theory Spec2Isabelle
  imports Main
begin

section \<open>The TV shield example script\<close>

text \<open>
  The program is \<^verbatim>\<open>scripts/examples/31-TV-Shield/tv.py\<close>:
  \<^verbatim>\<open>
  import sensor, image, tv

  sensor.reset()
  sensor.set_pixformat(sensor.RGB565) # or sensor.GRAYSCALE
  sensor.set_framesize(sensor.QQVGA)
  tv.init()
  tv.channel(8)
  while(True):
      tv.display(sensor.snapshot())
  \<close>
  The script has no variables of its own. Everything it does is a call into the
  modules \<^verbatim>\<open>sensor\<close> and \<^verbatim>\<open>tv\<close>, which belong to the camera firmware. The
  model takes these two modules as a parameter (the imports are taken to have
  succeeded) and threads the state of the outside world through their operations.
  What the operations are asked to do is observed from inside them: a spy around each
  operation records the call it receives, with its argument and its outcome.
\<close>

subsection \<open>Values of the firmware modules\<close>

text \<open>
  \<^verbatim>\<open>sensor.RGB565\<close> and \<^verbatim>\<open>sensor.GRAYSCALE\<close> are the two pixel formats that
  line 10 of the script names.
\<close>

datatype pixformat = RGB565 | GRAYSCALE

text \<open>
  Modelled from the spec: the frame size presets of the \<^verbatim>\<open>sensor\<close> module, which is
  not part of the script (``set frame size (enumerated resolution preset)''). The
  script names \<^verbatim>\<open>sensor.QQVGA\<close> only; every other preset is \<open>Other_framesize k\<close>.
\<close>

datatype framesize = QQVGA | Other_framesize nat

subsection \<open>Calls, outcomes and the log\<close>

text \<open>
  The seven operations the script invokes, with their arguments. A frame is a value
  of the type \<open>'v\<close> of Python objects; the channel is a Python integer.
\<close>

datatype 'v call =
    Sensor_reset
  | Sensor_set_pixformat pixformat
  | Sensor_set_framesize framesize
  | Tv_init
  | Tv_channel int
  | Sensor_snapshot
  | Tv_display 'v

text \<open>A call either returns an object or raises an exception.\<close>

datatype ('v, 'e) outcome = Returned 'v | Raised 'e

type_synonym ('v, 'e) event = "'v call \<times> ('v, 'e) outcome"

text \<open>
  An external operation reads and changes the outside world \<open>'w\<close> (sensor hardware,
  frame buffer, TV transmitter) and yields its outcome.
\<close>

type_synonym ('w, 'v, 'e) ext = "'w \<Rightarrow> ('v, 'e) outcome \<times> 'w"

record ('w, 'v, 'e) modules =
  sensor_reset :: "('w, 'v, 'e) ext"
  sensor_set_pixformat :: "pixformat \<Rightarrow> ('w, 'v, 'e) ext"
  sensor_set_framesize :: "framesize \<Rightarrow> ('w, 'v, 'e) ext"
  sensor_snapshot :: "('w, 'v, 'e) ext"
  tv_init :: "('w, 'v, 'e) ext"
  tv_channel :: "int \<Rightarrow> ('w, 'v, 'e) ext"
  tv_display :: "'v \<Rightarrow> ('w, 'v, 'e) ext"

subsection \<open>Statements\<close>

text \<open>
  How a statement ends: it completes, an exception leaves it uncaught, or (for a loop
  observed after a bounded number of iterations) it is still running.
\<close>

datatype ('e, 's) result = Completed 's | Uncaught 'e 's | Looping 's

fun state_of :: "('e, 's) result \<Rightarrow> 's" where
  "state_of (Completed s) = s"
| "state_of (Uncaught e s) = s"
| "state_of (Looping s) = s"

text \<open>
  An expression statement evaluates the expression and throws its value away; an
  exception is not caught and ends the statement.
\<close>

definition expr_stmt ::
  "('s \<Rightarrow> ('v, 'e) outcome \<times> 's) \<Rightarrow> 's \<Rightarrow> ('e, 's) result"
where
  "expr_stmt ex s =
     (case ex s of
        (Returned v, s') \<Rightarrow> Completed s'
      | (Raised e, s') \<Rightarrow> Uncaught e s')"

text \<open>Two statements in sequence: the second runs only if the first completes.\<close>

definition seq ::
  "('s \<Rightarrow> ('e, 's) result) \<Rightarrow> ('s \<Rightarrow> ('e, 's) result) \<Rightarrow> 's \<Rightarrow> ('e, 's) result"
where
  "seq a b s = (case a s of Completed s' \<Rightarrow> b s' | r \<Rightarrow> r)"

text \<open>
  \<^verbatim>\<open>while c: body\<close>, observed for at most \<open>n\<close> iterations. The loop completes when the
  condition is false; when the \<open>n\<close> iterations are used up and the condition still
  holds, the loop is \<open>Looping\<close>.
\<close>

fun while_stmt ::
  "('s \<Rightarrow> bool) \<Rightarrow> ('s \<Rightarrow> ('e, 's) result) \<Rightarrow> nat \<Rightarrow> 's \<Rightarrow> ('e, 's) result"
where
  "while_stmt c body 0 s = (if c s then Looping s else Completed s)"
| "while_stmt c body (Suc n) s =
     (if c s then
        (case body s of
           Completed s' \<Rightarrow> while_stmt c body n s'
         | r \<Rightarrow> r)
      else Completed s)"

subsection \<open>The script\<close>

text \<open>
  \<^verbatim>\<open>tv.display(sensor.snapshot())\<close>: the argument is evaluated first, by the capture
  operation of the modules; the display operation is then applied to the object that
  the capture returned, in the world that the capture left. If the capture raises, the
  display is not called.
\<close>

definition display_snapshot :: "('w, 'v, 'e) modules \<Rightarrow> ('w, 'v, 'e) ext" where
  "display_snapshot m w =
     (case sensor_snapshot m w of
        (Returned img, w') \<Rightarrow> tv_display m img w'
      | (Raised e, w') \<Rightarrow> (Raised e, w'))"

text \<open>Lines 9 to 13.\<close>

definition configuration :: "('w, 'v, 'e) modules \<Rightarrow> 'w \<Rightarrow> ('e, 'w) result" where
  "configuration m =
     seq (expr_stmt (sensor_reset m))
    (seq (expr_stmt (sensor_set_pixformat m RGB565))
    (seq (expr_stmt (sensor_set_framesize m QQVGA))
    (seq (expr_stmt (tv_init m))
         (expr_stmt (tv_channel m 8)))))"

text \<open>Lines 14 and 15.\<close>

definition main_loop :: "('w, 'v, 'e) modules \<Rightarrow> nat \<Rightarrow> 'w \<Rightarrow> ('e, 'w) result" where
  "main_loop m n = while_stmt (\<lambda>w. True) (expr_stmt (display_snapshot m)) n"

text \<open>The module body, run from a world \<open>w\<close> and observed for \<open>n\<close> loop iterations.\<close>

definition tv_script :: "('w, 'v, 'e) modules \<Rightarrow> nat \<Rightarrow> 'w \<Rightarrow> ('e, 'w) result" where
  "tv_script m n w = seq (configuration m) (main_loop m n) w"

subsection \<open>Spies\<close>

text \<open>
  The world of spied modules: the world of the modules themselves and the log of the
  calls that their operations have received so far, oldest first.
\<close>

record ('w, 'v, 'e) state =
  world :: 'w
  trace :: "('v, 'e) event list"

definition start :: "'w \<Rightarrow> ('w, 'v, 'e) state" where
  "start w = \<lparr>world = w, trace = []\<rparr>"

text \<open>The operation \<open>f\<close>, recording that it was called as \<open>c\<close> and how it ended.\<close>

definition recorded ::
  "'v call \<Rightarrow> ('w, 'v, 'e) ext \<Rightarrow> (('w, 'v, 'e) state, 'v, 'e) ext"
where
  "recorded c f s =
     (case f (world s) of
        (r, w') \<Rightarrow> (r, \<lparr>world = w', trace = trace s @ [(c, r)]\<rparr>))"

text \<open>
  The modules \<open>m\<close> under observation: every operation does what it does in \<open>m\<close> and
  records its own name together with the argument that it was actually given.
\<close>

definition spy :: "('w, 'v, 'e) modules \<Rightarrow> (('w, 'v, 'e) state, 'v, 'e) modules" where
  "spy m =
     \<lparr>sensor_reset = recorded Sensor_reset (sensor_reset m),
      sensor_set_pixformat = (\<lambda>p. recorded (Sensor_set_pixformat p) (sensor_set_pixformat m p)),
      sensor_set_framesize = (\<lambda>f. recorded (Sensor_set_framesize f) (sensor_set_framesize m f)),
      sensor_snapshot = recorded Sensor_snapshot (sensor_snapshot m),
      tv_init = recorded Tv_init (tv_init m),
      tv_channel = (\<lambda>k. recorded (Tv_channel k) (tv_channel m k)),
      tv_display = (\<lambda>img. recorded (Tv_display img) (tv_display m img))\<rparr>"

text \<open>The script run on the spied modules, from the world \<open>w\<close> and an empty log.\<close>

definition observed ::
  "('w, 'v, 'e) modules \<Rightarrow> nat \<Rightarrow> 'w \<Rightarrow> ('e, ('w, 'v, 'e) state) result"
where
  "observed m n w = tv_script (spy m) n (start w)"

text \<open>A result of the spied script without the log.\<close>

fun plain :: "('e, ('w, 'v, 'e) state) result \<Rightarrow> ('e, 'w) result" where
  "plain (Completed s) = Completed (world s)"
| "plain (Uncaught e s) = Uncaught e (world s)"
| "plain (Looping s) = Looping (world s)"

subsection \<open>Observing a run\<close>

text \<open>The calls of a log, without their outcomes.\<close>

definition calls :: "('v, 'e) event list \<Rightarrow> 'v call list" where
  "calls tr = map fst tr"

text \<open>The frames that the captures returned, in order.\<close>

fun captured :: "('v, 'e) event list \<Rightarrow> 'v list" where
  "captured [] = []"
| "captured ((Sensor_snapshot, Returned img) # evs) = img # captured evs"
| "captured (ev # evs) = captured evs"

text \<open>The arguments that the display was called with, in order.\<close>

fun displayed :: "('v, 'e) event list \<Rightarrow> 'v list" where
  "displayed [] = []"
| "displayed ((Tv_display img, r) # evs) = img # displayed evs"
| "displayed (ev # evs) = displayed evs"

text \<open>The five operations of lines 9 to 13 against the two of the loop body.\<close>

fun is_config_call :: "'v call \<Rightarrow> bool" where
  "is_config_call Sensor_snapshot = False"
| "is_config_call (Tv_display img) = False"
| "is_config_call c = True"

fun is_display :: "'v call \<Rightarrow> bool" where
  "is_display (Tv_display img) = True"
| "is_display c = False"

definition is_loop_call :: "'v call \<Rightarrow> bool" where
  "is_loop_call c = (c = Sensor_snapshot \<or> is_display c)"

text \<open>The calls of lines 9 to 13 as the source writes them, with their arguments.\<close>

definition config_calls :: "'v call list" where
  "config_calls =
     [Sensor_reset, Sensor_set_pixformat RGB565, Sensor_set_framesize QQVGA, Tv_init, Tv_channel 8]"

text \<open>The exception that ended a run, if one did.\<close>

fun raised_of :: "('e, 's) result \<Rightarrow> 'e option" where
  "raised_of (Uncaught e s) = Some e"
| "raised_of r = None"

text \<open>
  The shape of the log of the loop: pairs of a capture that returned and the
  display of the returned frame; the log ends with the first call that raises, and
  \<open>x\<close> is that exception.
\<close>

fun loop_log :: "('v, 'e) event list \<Rightarrow> 'e option \<Rightarrow> bool" where
  "loop_log [] x = (x = None)"
| "loop_log ((Sensor_snapshot, Raised e) # evs) x = (evs = [] \<and> x = Some e)"
| "loop_log ((Sensor_snapshot, Returned img) # (Tv_display img', Returned v) # evs) x =
     (img' = img \<and> loop_log evs x)"
| "loop_log ((Sensor_snapshot, Returned img) # (Tv_display img', Raised e) # evs) x =
     (img' = img \<and> evs = [] \<and> x = Some e)"
| "loop_log evs x = False"

text \<open>
  The shape of a whole log: the expected calls \<open>cs\<close> one after the other, up to the
  first that raises, then the log of the loop.
\<close>

fun script_log :: "'v call list \<Rightarrow> ('v, 'e) event list \<Rightarrow> 'e option \<Rightarrow> bool" where
  "script_log [] evs x = loop_log evs x"
| "script_log (c # cs) [] x = False"
| "script_log (c # cs) ((c', r) # evs) x =
     (c' = c \<and> (case r of Returned v \<Rightarrow> script_log cs evs x | Raised e \<Rightarrow> evs = [] \<and> x = Some e))"

text \<open>
  A statement \<open>b\<close> started in \<open>s\<close> appends a log of shape \<open>cs\<close> to the log of \<open>s\<close>;
  it never completes, it is still looping after \<open>k\<close> further calls if nothing raised,
  and it ends with the exception otherwise.
\<close>

definition logged ::
  "nat \<Rightarrow> 'v call list \<Rightarrow> (('w, 'v, 'e) state \<Rightarrow> ('e, ('w, 'v, 'e) state) result) \<Rightarrow> ('w, 'v, 'e) state \<Rightarrow> bool"
where
  "logged k cs b s =
     (\<exists>evs. trace (state_of (b s)) = trace s @ evs
        \<and> script_log cs evs (raised_of (b s))
        \<and> (raised_of (b s) = None \<longrightarrow> b s = Looping (state_of (b s)) \<and> length evs = k)
        \<and> (\<forall>e. raised_of (b s) = Some e \<longrightarrow> b s = Uncaught e (state_of (b s))))"

text \<open>The arguments of the calls that take a configuration value, in order.\<close>

fun pixformat_args :: "'v call list \<Rightarrow> pixformat list" where
  "pixformat_args [] = []"
| "pixformat_args (Sensor_set_pixformat p # cs) = p # pixformat_args cs"
| "pixformat_args (c # cs) = pixformat_args cs"

fun framesize_args :: "'v call list \<Rightarrow> framesize list" where
  "framesize_args [] = []"
| "framesize_args (Sensor_set_framesize f # cs) = f # framesize_args cs"
| "framesize_args (c # cs) = framesize_args cs"

fun channel_args :: "'v call list \<Rightarrow> int list" where
  "channel_args [] = []"
| "channel_args (Tv_channel k # cs) = k # channel_args cs"
| "channel_args (c # cs) = channel_args cs"

text \<open>
  The log of the run from world \<open>w\<close>, observed for \<open>n\<close> loop iterations: the calls that
  the operations of the modules received from the script.
\<close>

definition run_log :: "('w, 'v, 'e) modules \<Rightarrow> nat \<Rightarrow> 'w \<Rightarrow> ('v, 'e) event list" where
  "run_log m n w = trace (state_of (observed m n w))"

text \<open>The five configuration statements complete, so that the loop is entered.\<close>

definition loop_begins :: "('w, 'v, 'e) modules \<Rightarrow> 'w \<Rightarrow> bool" where
  "loop_begins m w =
     (case configuration m w of
        Completed w' \<Rightarrow> True
      | Uncaught e w' \<Rightarrow> False
      | Looping w' \<Rightarrow> False)"

text \<open>The call of an event returned.\<close>

fun returned :: "('v, 'e) event \<Rightarrow> bool" where
  "returned (c, Returned v) = True"
| "returned (c, Raised e) = False"

text \<open>A run that is found inside the loop.\<close>

fun still_looping :: "('e, 's) result \<Rightarrow> bool" where
  "still_looping (Looping s) = True"
| "still_looping r = False"

text \<open>The calls of the loop for the frames \<open>imgs\<close>: a capture and the display of its frame for each.\<close>

fun iterations :: "'v list \<Rightarrow> 'v call list" where
  "iterations [] = []"
| "iterations (img # imgs) = Sensor_snapshot # Tv_display img # iterations imgs"

text \<open>A list of calls that is a capture, a display, a capture, a display, and so on.\<close>

fun alternates :: "'v call list \<Rightarrow> bool" where
  "alternates [] = True"
| "alternates [c] = (c = Sensor_snapshot)"
| "alternates (c # d # cs) = (c = Sensor_snapshot \<and> is_display d \<and> alternates cs)"

subsection \<open>Frames in flight\<close>

text \<open>
  The frames in the hands of the script: a capture that returns hands a frame to the
  script, and a call of the display takes the frame it is given out of the script's
  hands. The display of a frame that the script does not hold (one that it has given
  up before, or that no capture returned) is a violation, \<open>None\<close>.
\<close>

fun in_flight_from :: "'v list \<Rightarrow> ('v, 'e) event list \<Rightarrow> 'v list option" where
  "in_flight_from held [] = Some held"
| "in_flight_from held ((Sensor_snapshot, Returned img) # evs) = in_flight_from (held @ [img]) evs"
| "in_flight_from held ((Tv_display img, r) # evs) =
     (if img \<in> set held then in_flight_from (remove1 img held) evs else None)"
| "in_flight_from held (ev # evs) = in_flight_from held evs"

definition in_flight :: "('v, 'e) event list \<Rightarrow> 'v list option" where
  "in_flight tr = in_flight_from [] tr"

text \<open>
  After the first \<open>k\<close> calls of the log either no frame is in flight, or one is and the
  very next call is the display of it.
\<close>

definition one_in_flight :: "('v, 'e) event list \<Rightarrow> nat \<Rightarrow> bool" where
  "one_in_flight tr k =
     (case in_flight (take k tr) of
        None \<Rightarrow> False
      | Some [] \<Rightarrow> True
      | Some [img] \<Rightarrow> k < length tr \<and> fst (tr ! k) = Tv_display img
      | Some (img # img' # imgs) \<Rightarrow> False)"

subsection \<open>Other return values, other histories\<close>

text \<open>An operation that behaves as \<open>f\<close> but returns \<open>g v\<close> where \<open>f\<close> returns \<open>v\<close>.\<close>

definition returning :: "('v \<Rightarrow> 'v) \<Rightarrow> ('w, 'v, 'e) ext \<Rightarrow> ('w, 'v, 'e) ext" where
  "returning g f w =
     (case f w of
        (Returned v, w') \<Rightarrow> (Returned (g v), w')
      | (Raised e, w') \<Rightarrow> (Raised e, w'))"

text \<open>
  Modules that behave as \<open>m\<close>, except that every operation other than the capture
  returns another object: \<open>g c v\<close> where the call \<open>c\<close> returns \<open>v\<close> in \<open>m\<close>.
\<close>

definition other_results ::
  "('v call \<Rightarrow> 'v \<Rightarrow> 'v) \<Rightarrow> ('w, 'v, 'e) modules \<Rightarrow> ('w, 'v, 'e) modules"
where
  "other_results g m =
     \<lparr>sensor_reset = returning (g Sensor_reset) (sensor_reset m),
      sensor_set_pixformat = (\<lambda>p. returning (g (Sensor_set_pixformat p)) (sensor_set_pixformat m p)),
      sensor_set_framesize = (\<lambda>f. returning (g (Sensor_set_framesize f)) (sensor_set_framesize m f)),
      sensor_snapshot = sensor_snapshot m,
      tv_init = returning (g Tv_init) (tv_init m),
      tv_channel = (\<lambda>k. returning (g (Tv_channel k)) (tv_channel m k)),
      tv_display = (\<lambda>img. returning (g (Tv_display img)) (tv_display m img))\<rparr>"

text \<open>Two states with the same world and the same calls made.\<close>

definition same_view :: "('w, 'v, 'e) state \<Rightarrow> ('w, 'v, 'e) state \<Rightarrow> bool" where
  "same_view s s' = (world s = world s' \<and> calls (trace s) = calls (trace s'))"

fun same_result ::
  "('e, ('w, 'v, 'e) state) result \<Rightarrow> ('e, ('w, 'v, 'e) state) result \<Rightarrow> bool"
where
  "same_result (Completed s) (Completed s') = same_view s s'"
| "same_result (Uncaught e s) (Uncaught e' s') = (e = e' \<and> same_view s s')"
| "same_result (Looping s) (Looping s') = same_view s s'"
| "same_result r r' = False"

text \<open>The modules \<open>m\<close> with other objects returned by the five configuration operations.\<close>

definition other_config_results ::
  "('v call \<Rightarrow> 'v \<Rightarrow> 'v) \<Rightarrow> ('w, 'v, 'e) modules \<Rightarrow> ('w, 'v, 'e) modules"
where
  "other_config_results g m = other_results (\<lambda>c v. if is_config_call c then g c v else v) m"

text \<open>The modules \<open>m\<close> with another object returned by the display.\<close>

definition other_display_results ::
  "('v \<Rightarrow> 'v \<Rightarrow> 'v) \<Rightarrow> ('w, 'v, 'e) modules \<Rightarrow> ('w, 'v, 'e) modules"
where
  "other_display_results g m =
     other_results (\<lambda>c v. case c of Tv_display img \<Rightarrow> g img v | _ \<Rightarrow> v) m"

text \<open>A result whose log is prefixed with an earlier log.\<close>

fun prepend ::
  "('v, 'e) event list \<Rightarrow> ('e, ('w, 'v, 'e) state) result \<Rightarrow> ('e, ('w, 'v, 'e) state) result"
where
  "prepend tr (Completed s) = Completed (s\<lparr>trace := tr @ trace s\<rparr>)"
| "prepend tr (Uncaught e s) = Uncaught e (s\<lparr>trace := tr @ trace s\<rparr>)"
| "prepend tr (Looping s) = Looping (s\<lparr>trace := tr @ trace s\<rparr>)"

subsection \<open>A test double\<close>

text \<open>
  Python objects of the test double: \<^verbatim>\<open>None\<close> and numbered frames. Its world is a
  board with the three settings that the script writes, the frames that the sensor
  will still deliver, and the frames that the TV has shown, oldest first.
\<close>

datatype obj = None_obj | Frame nat

datatype exn = Sensor_timeout | Sensor_absent

record board =
  format_reg :: "pixformat option"
  size_reg :: "framesize option"
  channel_reg :: "int option"
  pending :: "nat list"
  screen :: "obj list"

text \<open>The board at power-on, with the frames \<open>ks\<close> in front of the sensor.\<close>

definition power_on :: "nat list \<Rightarrow> board" where
  "power_on ks =
     \<lparr>format_reg = None, size_reg = None, channel_reg = None, pending = ks, screen = []\<rparr>"

text \<open>
  The operations of the test double. The reset clears the settings of the sensor, the
  initialisation of the TV clears the channel and the screen, and the three setters
  store their argument. A capture delivers the next frame; from a sensor with no frame
  left it raises. The display adds its argument to the screen.
\<close>

definition mock :: "(board, obj, exn) modules" where
  "mock =
     \<lparr>sensor_reset = (\<lambda>w. (Returned None_obj, w\<lparr>format_reg := None, size_reg := None\<rparr>)),
      sensor_set_pixformat = (\<lambda>p w. (Returned None_obj, w\<lparr>format_reg := Some p\<rparr>)),
      sensor_set_framesize = (\<lambda>f w. (Returned None_obj, w\<lparr>size_reg := Some f\<rparr>)),
      sensor_snapshot =
        (\<lambda>w. case pending w of
                [] \<Rightarrow> (Raised Sensor_timeout, w)
              | k # ks \<Rightarrow> (Returned (Frame k), w\<lparr>pending := ks\<rparr>)),
      tv_init = (\<lambda>w. (Returned None_obj, w\<lparr>channel_reg := None, screen := []\<rparr>)),
      tv_channel = (\<lambda>c w. (Returned None_obj, w\<lparr>channel_reg := Some c\<rparr>)),
      tv_display = (\<lambda>img w. (Returned None_obj, w\<lparr>screen := screen w @ [img]\<rparr>))\<rparr>"

text \<open>The test double without a sensor: the reset raises.\<close>

definition no_sensor :: "(board, obj, exn) modules" where
  "no_sensor = mock\<lparr>sensor_reset := (\<lambda>w. (Raised Sensor_absent, w))\<rparr>"
section \<open>The structure of every run\<close>

lemma recorded_eq:
  "recorded c f s =
     (fst (f (world s)), \<lparr>world = snd (f (world s)), trace = trace s @ [(c, fst (f (world s)))]\<rparr>)"
  by (simp add: recorded_def split: prod.splits)

lemma body_cases:
  "expr_stmt (display_snapshot (spy m)) s =
    (case sensor_snapshot m (world s) of
       (Raised e, w1) \<Rightarrow> Uncaught e \<lparr>world = w1, trace = trace s @ [(Sensor_snapshot, Raised e)]\<rparr>
     | (Returned img, w1) \<Rightarrow>
         (case tv_display m img w1 of
            (Raised e, w2) \<Rightarrow> Uncaught e \<lparr>world = w2,
               trace = trace s @ [(Sensor_snapshot, Returned img), (Tv_display img, Raised e)]\<rparr>
          | (Returned v, w2) \<Rightarrow> Completed \<lparr>world = w2,
               trace = trace s @ [(Sensor_snapshot, Returned img), (Tv_display img, Returned v)]\<rparr>))"
  by (simp add: expr_stmt_def display_snapshot_def spy_def recorded_eq split: prod.splits outcome.splits)

lemma main_loop_Suc:
  "main_loop m (Suc n) s =
     (case expr_stmt (display_snapshot m) s of Completed s' \<Rightarrow> main_loop m n s' | r \<Rightarrow> r)"
  unfolding main_loop_def by simp

lemma main_loop_0: "main_loop m 0 s = Looping s"
  by (simp add: main_loop_def)

lemma stmt_not_Looping: "expr_stmt ex s \<noteq> Looping s'"
  by (simp add: expr_stmt_def split: prod.splits outcome.splits)

lemma body_effects:
  "expr_stmt (display_snapshot m) w =
    (case sensor_snapshot m w of
       (Raised e, w1) \<Rightarrow> Uncaught e w1
     | (Returned img, w1) \<Rightarrow>
         (case tv_display m img w1 of
            (Raised e, w2) \<Rightarrow> Uncaught e w2
          | (Returned v, w2) \<Rightarrow> Completed w2))"
  by (simp add: expr_stmt_def display_snapshot_def split: prod.splits outcome.splits)

lemma body_Completed:
  assumes "expr_stmt (display_snapshot (spy m)) s = Completed s'"
  shows "\<exists>img v. trace s' = trace s @ [(Sensor_snapshot, Returned img), (Tv_display img, Returned v)]"
  using assms by (simp add: body_cases split: prod.splits outcome.splits) auto

lemma body_Uncaught:
  assumes "expr_stmt (display_snapshot (spy m)) s = Uncaught e s'"
  shows "trace s' = trace s @ [(Sensor_snapshot, Raised e)]
       \<or> (\<exists>img. trace s' = trace s @ [(Sensor_snapshot, Returned img), (Tv_display img, Raised e)])"
  using assms by (simp add: body_cases split: prod.splits outcome.splits) auto

lemma body_not_Looping: "expr_stmt (display_snapshot m) s \<noteq> Looping s'"
  by (rule stmt_not_Looping)

lemma main_loop_log:
  "\<exists>evs. trace (state_of (main_loop (spy m) n s)) = trace s @ evs
        \<and> loop_log evs (raised_of (main_loop (spy m) n s))
        \<and> (raised_of (main_loop (spy m) n s) = None \<longrightarrow>
             main_loop (spy m) n s = Looping (state_of (main_loop (spy m) n s)) \<and> length evs = 2 * n)
        \<and> (\<forall>e. raised_of (main_loop (spy m) n s) = Some e \<longrightarrow>
             main_loop (spy m) n s = Uncaught e (state_of (main_loop (spy m) n s)))"
proof (induction n arbitrary: s)
  case 0
  show ?case by (simp add: main_loop_0)
next
  case (Suc n)
  show ?case
  proof (cases "expr_stmt (display_snapshot (spy m)) s")
    case (Completed s')
    from body_Completed[OF Completed] obtain img v
      where s': "trace s' = trace s @ [(Sensor_snapshot, Returned img), (Tv_display img, Returned v)]"
      by blast
    from Suc.IH[of s'] obtain evs where all: "trace (state_of (main_loop (spy m) n s')) = trace s' @ evs
      \<and> loop_log evs (raised_of (main_loop (spy m) n s'))
      \<and> (raised_of (main_loop (spy m) n s') = None \<longrightarrow>
             main_loop (spy m) n s' = Looping (state_of (main_loop (spy m) n s')) \<and> length evs = 2 * n)
      \<and> (\<forall>e. raised_of (main_loop (spy m) n s') = Some e \<longrightarrow>
             main_loop (spy m) n s' = Uncaught e (state_of (main_loop (spy m) n s')))" ..
    note evs = all[THEN conjunct1] all[THEN conjunct2, THEN conjunct1]
      all[THEN conjunct2, THEN conjunct2, THEN conjunct1]
      all[THEN conjunct2, THEN conjunct2, THEN conjunct2]
    have eq: "main_loop (spy m) (Suc n) s = main_loop (spy m) n s'"
      by (simp add: main_loop_Suc Completed)
    let ?evs = "(Sensor_snapshot, Returned img) # (Tv_display img, Returned v) # evs"
    have "trace (state_of (main_loop (spy m) (Suc n) s)) = trace s @ ?evs"
      using evs(1) s' by (simp add: eq)
    moreover have "loop_log ?evs (raised_of (main_loop (spy m) (Suc n) s))"
      using evs(2) by (simp add: eq)
    moreover have "raised_of (main_loop (spy m) (Suc n) s) = None \<longrightarrow>
             main_loop (spy m) (Suc n) s = Looping (state_of (main_loop (spy m) (Suc n) s)) \<and> length ?evs = 2 * Suc n"
      using evs(3) by (simp add: eq)
    moreover have "\<forall>e. raised_of (main_loop (spy m) (Suc n) s) = Some e \<longrightarrow>
             main_loop (spy m) (Suc n) s = Uncaught e (state_of (main_loop (spy m) (Suc n) s))"
      using evs(4) by (simp add: eq)
    ultimately show ?thesis by (intro exI[of _ ?evs] conjI)
  next
    case (Uncaught e s')
    have eq: "main_loop (spy m) (Suc n) s = Uncaught e s'"
      by (simp add: main_loop_Suc Uncaught)
    from body_Uncaught[OF Uncaught] show ?thesis
    proof
      assume "trace s' = trace s @ [(Sensor_snapshot, Raised e)]"
      then show ?thesis
        by (intro exI[of _ "[(Sensor_snapshot, Raised e)]"]) (simp add: eq)
    next
      assume "\<exists>img. trace s' = trace s @ [(Sensor_snapshot, Returned img), (Tv_display img, Raised e)]"
      then obtain img where "trace s' = trace s @ [(Sensor_snapshot, Returned img), (Tv_display img, Raised e)]"
        by blast
      then show ?thesis
        by (intro exI[of _ "[(Sensor_snapshot, Returned img), (Tv_display img, Raised e)]"])
           (simp add: eq)
    qed
  next
    case (Looping s')
    then show ?thesis by (simp add: body_not_Looping)
  qed
qed

lemma logged_main_loop: "logged (2 * n) [] (main_loop (spy m) n) s"
  unfolding logged_def using main_loop_log[of m n s] by simp

lemma stmt_cases:
  "expr_stmt (recorded c f) s =
     (case f (world s) of
        (Returned v, w') \<Rightarrow> Completed \<lparr>world = w', trace = trace s @ [(c, Returned v)]\<rparr>
      | (Raised e, w') \<Rightarrow> Uncaught e \<lparr>world = w', trace = trace s @ [(c, Raised e)]\<rparr>)"
  by (simp add: expr_stmt_def recorded_eq split: prod.splits outcome.splits)

lemma logged_seq:
  assumes "\<And>s'. logged k cs b s'"
  shows "logged (Suc k) (c # cs) (seq (expr_stmt (recorded c f)) b) s"
proof (cases "f (world s)")
  case (Pair r w')
  show ?thesis
  proof (cases r)
    case (Returned v)
    let ?s' = "\<lparr>world = w', trace = trace s @ [(c, Returned v)]\<rparr>"
    have eq: "seq (expr_stmt (recorded c f)) b s = b ?s'"
      using Pair Returned by (simp add: seq_def stmt_cases)
    from assms[of ?s', unfolded logged_def] obtain evs where all:
      "trace (state_of (b ?s')) = trace ?s' @ evs
        \<and> script_log cs evs (raised_of (b ?s'))
        \<and> (raised_of (b ?s') = None \<longrightarrow> b ?s' = Looping (state_of (b ?s')) \<and> length evs = k)
        \<and> (\<forall>e. raised_of (b ?s') = Some e \<longrightarrow> b ?s' = Uncaught e (state_of (b ?s')))" ..
    show ?thesis
      unfolding logged_def eq
      by (rule exI[of _ "(c, Returned v) # evs"]) (use all in simp)
  next
    case (Raised e)
    have eq: "seq (expr_stmt (recorded c f)) b s
      = Uncaught e \<lparr>world = w', trace = trace s @ [(c, Raised e)]\<rparr>"
      using Pair Raised by (simp add: seq_def stmt_cases)
    show ?thesis
      unfolding logged_def eq
      by (rule exI[of _ "[(c, Raised e)]"]) simp
  qed
qed

lemma seq_assoc: "seq (seq a b) c = seq a (seq b c)"
  by (rule ext) (simp add: seq_def split: result.splits)

lemma observed_unfold:
  "observed m n w =
     seq (expr_stmt (recorded Sensor_reset (sensor_reset m)))
    (seq (expr_stmt (recorded (Sensor_set_pixformat RGB565) (sensor_set_pixformat m RGB565)))
    (seq (expr_stmt (recorded (Sensor_set_framesize QQVGA) (sensor_set_framesize m QQVGA)))
    (seq (expr_stmt (recorded Tv_init (tv_init m)))
    (seq (expr_stmt (recorded (Tv_channel 8) (tv_channel m 8)))
         (main_loop (spy m) n))))) (start w)"
  by (simp add: observed_def tv_script_def configuration_def seq_assoc spy_def)

lemma logged_observed:
  "logged (5 + 2 * n) config_calls (\<lambda>s. observed m n (world s)) (start w)"
proof -
  have "logged (Suc (Suc (Suc (Suc (Suc (2 * n)))))) config_calls
     (seq (expr_stmt (recorded Sensor_reset (sensor_reset m)))
    (seq (expr_stmt (recorded (Sensor_set_pixformat RGB565) (sensor_set_pixformat m RGB565)))
    (seq (expr_stmt (recorded (Sensor_set_framesize QQVGA) (sensor_set_framesize m QQVGA)))
    (seq (expr_stmt (recorded Tv_init (tv_init m)))
    (seq (expr_stmt (recorded (Tv_channel 8) (tv_channel m 8)))
         (main_loop (spy m) n)))))) (start w)"
    unfolding config_calls_def
    by (intro logged_seq logged_main_loop)
  then show ?thesis
    by (simp add: logged_def observed_unfold start_def)
qed


lemma observed_log:
  "script_log config_calls (trace (state_of (observed m n w))) (raised_of (observed m n w))"
  using logged_observed[of n m w] by (simp add: logged_def start_def)

lemma observed_not_raised:
  assumes "raised_of (observed m n w) = None"
  shows "observed m n w = Looping (state_of (observed m n w))"
    and "length (trace (state_of (observed m n w))) = 5 + 2 * n"
  using logged_observed[of n m w] assms by (simp_all add: logged_def start_def)

lemma observed_raised:
  assumes "raised_of (observed m n w) = Some e"
  shows "observed m n w = Uncaught e (state_of (observed m n w))"
  using logged_observed[of n m w] assms by (simp add: logged_def start_def)

lemma loop_log_displayed: "loop_log evs x \<Longrightarrow> displayed evs = captured evs"
  by (induction evs x rule: loop_log.induct) simp_all

lemma script_log_displayed:
  "script_log cs evs x \<Longrightarrow> list_all is_config_call cs \<Longrightarrow> displayed evs = captured evs"
proof (induction cs evs x rule: script_log.induct)
  case (1 evs x)
  then show ?case by (simp add: loop_log_displayed)
next
  case (2 c cs x)
  then show ?case by simp
next
  case (3 c cs c' r evs x)
  then show ?case by (cases c; cases r) auto
qed

lemma config_calls_are_config: "list_all is_config_call config_calls"
  by (simp add: config_calls_def)

lemma seq_Completed:
  "seq a b s = Completed s' \<longleftrightarrow> (\<exists>s1. a s = Completed s1 \<and> b s1 = Completed s')"
  by (cases "a s") (simp_all add: seq_def)

lemma stmt_Completed:
  "expr_stmt (recorded c f) s = Completed s' \<longleftrightarrow>
     (\<exists>v w'. f (world s) = (Returned v, w') \<and> s' = \<lparr>world = w', trace = trace s @ [(c, Returned v)]\<rparr>)"
  by (auto simp: stmt_cases split: prod.splits outcome.splits)

lemma configuration_Completed:
  assumes "configuration (spy m) s = Completed s0"
  shows "calls (trace s0) = calls (trace s) @ config_calls"
  using assms
  by (auto simp: configuration_def spy_def seq_Completed stmt_Completed calls_def config_calls_def)

lemma observed_Completed_config:
  assumes "configuration (spy m) (start w) = Completed s0"
  shows "observed m n w = main_loop (spy m) n s0"
  using assms by (simp add: observed_def tv_script_def seq_def)

lemma loop_log_calls: "loop_log evs x \<Longrightarrow> list_all is_loop_call (calls evs)"
  by (induction evs x rule: loop_log.induct) (simp_all add: calls_def is_loop_call_def)

lemma observed_calls:
  assumes "configuration (spy m) (start w) = Completed s0"
  shows "\<exists>cs. calls (trace (state_of (observed m n w))) = config_calls @ cs
            \<and> list_all is_loop_call cs"
proof -
  from main_loop_log[of m n s0] obtain evs where
    all: "trace (state_of (main_loop (spy m) n s0)) = trace s0 @ evs
        \<and> loop_log evs (raised_of (main_loop (spy m) n s0))
        \<and> (raised_of (main_loop (spy m) n s0) = None \<longrightarrow>
             main_loop (spy m) n s0 = Looping (state_of (main_loop (spy m) n s0)) \<and> length evs = 2 * n)
        \<and> (\<forall>e. raised_of (main_loop (spy m) n s0) = Some e \<longrightarrow>
             main_loop (spy m) n s0 = Uncaught e (state_of (main_loop (spy m) n s0)))" ..
  have c0: "calls (trace s0) = config_calls"
    using configuration_Completed[OF assms] by (simp add: start_def calls_def)
  have "calls (trace (state_of (observed m n w))) = config_calls @ calls evs"
    using all c0 by (simp add: observed_Completed_config[OF assms] calls_def)
  moreover have "list_all is_loop_call (calls evs)"
    by (rule all[THEN conjunct2, THEN conjunct1, THEN loop_log_calls])
  ultimately show ?thesis by (intro exI[of _ "calls evs"] conjI)
qed

lemma loop_call_not_config: "is_loop_call c \<Longrightarrow> \<not> is_config_call c"
  by (cases c) (simp_all add: is_loop_call_def)

lemma config_call_not_loop: "is_config_call c \<Longrightarrow> \<not> is_loop_call c"
  by (cases c) (simp_all add: is_loop_call_def)

lemma loop_calls_no_args:
  assumes "list_all is_loop_call cs"
  shows "pixformat_args cs = []" and "framesize_args cs = []" and "channel_args cs = []"
    and "filter is_config_call cs = []" and "filter is_loop_call cs = cs"
    and "takeWhile is_config_call cs = []" and "dropWhile is_config_call cs = cs"
  using assms
proof (induction cs)
  case Nil
  {
    case 1 show ?case by simp
  next
    case 2 show ?case by simp
  next
    case 3 show ?case by simp
  next
    case 4 show ?case by simp
  next
    case 5 show ?case by simp
  next
    case 6 show ?case by simp
  next
    case 7 show ?case by simp
  }
next
  case (Cons c cs)
  {
    case 1 with Cons.IH(1) show ?case by (cases c) (simp_all add: is_loop_call_def)
  next
    case 2 with Cons.IH(2) show ?case by (cases c) (simp_all add: is_loop_call_def)
  next
    case 3 with Cons.IH(3) show ?case by (cases c) (simp_all add: is_loop_call_def)
  next
    case 4 with Cons.IH(4) show ?case by (simp add: loop_call_not_config)
  next
    case 5 with Cons.IH(5) show ?case by simp
  next
    case 6 then show ?case by (simp add: loop_call_not_config)
  next
    case 7 then show ?case by (simp add: loop_call_not_config)
  }
qed

lemma script_log_config:
  "script_log cs evs x \<Longrightarrow> list_all is_config_call cs \<Longrightarrow>
     filter is_config_call (calls evs) = take (length evs) cs"
proof (induction cs evs x rule: script_log.induct)
  case (1 evs x)
  then have "list_all is_loop_call (calls evs)" by (simp add: loop_log_calls)
  then show ?case by (simp add: loop_calls_no_args)
next
  case (2 c cs x)
  then show ?case by simp
next
  case (3 c cs c' r evs x)
  then show ?case
    by (cases r) (simp_all add: calls_def)
qed

lemma script_log_config_first:
  "script_log cs evs x \<Longrightarrow> list_all is_config_call cs \<Longrightarrow>
     calls evs = filter is_config_call (calls evs) @ filter is_loop_call (calls evs)"
proof (induction cs evs x rule: script_log.induct)
  case (1 evs x)
  then have "list_all is_loop_call (calls evs)" by (simp add: loop_log_calls)
  then show ?case by (simp add: loop_calls_no_args)
next
  case (2 c cs x)
  then show ?case by simp
next
  case (3 c cs c' r evs x)
  then show ?case
    by (cases r) (simp_all add: calls_def config_call_not_loop)
qed

lemma script_log_args:
  "script_log cs evs x \<Longrightarrow>
     set (pixformat_args (calls evs)) \<subseteq> set (pixformat_args cs)
   \<and> set (framesize_args (calls evs)) \<subseteq> set (framesize_args cs)
   \<and> set (channel_args (calls evs)) \<subseteq> set (channel_args cs)"
proof (induction cs evs x rule: script_log.induct)
  case (1 evs x)
  then have "list_all is_loop_call (calls evs)" by (simp add: loop_log_calls)
  then show ?case by (simp add: loop_calls_no_args)
next
  case (2 c cs x)
  then show ?case by simp
next
  case (3 c cs c' r evs x)
  then show ?case
    by (cases r; cases c) (auto simp: calls_def)
qed

subsection \<open>The spies are transparent\<close>

lemma plain_simps [simp]:
  "raised_of (plain r) = raised_of r"
  "still_looping (plain r) = still_looping r"
  "state_of (plain r) = world (state_of r)"
  by (cases r; simp)+

lemma plain_stmt: "plain (expr_stmt (recorded c f) s) = expr_stmt f (world s)"
  by (simp add: stmt_cases expr_stmt_def[of f] split: prod.splits outcome.splits)

lemma plain_seq:
  assumes "\<And>s. plain (a s) = a' (world s)" and "\<And>s. plain (b s) = b' (world s)"
  shows "plain (seq a b s) = seq a' b' (world s)"
proof -
  have "a' (world s) = plain (a s)" by (simp add: assms(1))
  then show ?thesis by (cases "a s") (simp_all add: seq_def assms(2))
qed

lemma plain_body:
  "plain (expr_stmt (display_snapshot (spy m)) s) = expr_stmt (display_snapshot m) (world s)"
  by (simp add: body_cases expr_stmt_def[of "display_snapshot m"] display_snapshot_def[of m]
      split: prod.splits outcome.splits)

lemma plain_loop: "plain (main_loop (spy m) n s) = main_loop m n (world s)"
  unfolding main_loop_def
proof (induction n arbitrary: s)
  case 0
  show ?case by simp
next
  case (Suc n)
  from plain_body[of m s, symmetric] show ?case
    by (cases "expr_stmt (display_snapshot (spy m)) s") (simp_all add: Suc.IH)
qed

lemma plain_configuration: "plain (configuration (spy m) s) = configuration m (world s)"
  unfolding configuration_def
  by (intro plain_seq) (simp_all add: spy_def plain_stmt)

lemma plain_observed: "plain (observed m n w) = tv_script m n w"
proof -
  have "plain (seq (configuration (spy m)) (main_loop (spy m) n) s)
      = seq (configuration m) (main_loop m n) (world s)" for s
    by (intro plain_seq plain_configuration plain_loop)
  from this[of "start w"] show ?thesis by (simp add: observed_def tv_script_def start_def)
qed

lemma loop_beginsD:
  assumes "loop_begins m w"
  obtains s0 where "configuration (spy m) (start w) = Completed s0"
proof (cases "configuration (spy m) (start w)")
  case (Completed s0)
  then show ?thesis by (rule that)
next
  case (Uncaught e s0)
  with plain_configuration[of m "start w", symmetric] assms show ?thesis
    by (simp add: loop_begins_def start_def)
next
  case (Looping s0)
  with plain_configuration[of m "start w", symmetric] assms show ?thesis
    by (simp add: loop_begins_def start_def)
qed

lemma run_log_script_log:
  "script_log config_calls (run_log m n w) (raised_of (observed m n w))"
  unfolding run_log_def by (rule observed_log)

lemma run_calls_begun:
  assumes "loop_begins m w"
  obtains cs where "calls (run_log m n w) = config_calls @ cs" and "list_all is_loop_call cs"
proof -
  from assms obtain s0 where s0: "configuration (spy m) (start w) = Completed s0"
    by (rule loop_beginsD)
  from observed_calls[OF s0, of n] obtain cs where
    "calls (trace (state_of (observed m n w))) = config_calls @ cs \<and> list_all is_loop_call cs" ..
  then have "calls (run_log m n w) = config_calls @ cs" and "list_all is_loop_call cs"
    by (simp_all add: run_log_def)
  then show ?thesis by (rule that)
qed

lemma length_config_calls: "length (config_calls :: 'v call list) = 5"
  by (simp add: config_calls_def)

lemma run_log_begun_takeWhile:
  assumes "loop_begins m w"
  shows "takeWhile is_config_call (calls (run_log m n w)) = config_calls"
    and "dropWhile is_config_call (calls (run_log m n w)) = drop 5 (calls (run_log m n w))"
    and "list_all is_loop_call (drop 5 (calls (run_log m n w)))"
    and "take 5 (calls (run_log m n w)) = config_calls"
    and "filter is_config_call (calls (run_log m n w)) = config_calls"
proof -
  from assms obtain cs where cs: "calls (run_log m n w) = config_calls @ cs"
    "list_all is_loop_call cs" by (rule run_calls_begun)
  have all: "\<forall>c\<in>set (config_calls :: 'b call list). is_config_call c"
    by (simp add: config_calls_def)
  show "takeWhile is_config_call (calls (run_log m n w)) = config_calls"
    using all by (simp add: cs(1) takeWhile_append2 loop_calls_no_args[OF cs(2)])
  show "dropWhile is_config_call (calls (run_log m n w)) = drop 5 (calls (run_log m n w))"
    using all by (simp add: cs(1) dropWhile_append2 loop_calls_no_args[OF cs(2)] length_config_calls)
  show "list_all is_loop_call (drop 5 (calls (run_log m n w)))"
    using cs(2) by (simp add: cs(1) length_config_calls)
  show "take 5 (calls (run_log m n w)) = config_calls"
    by (simp add: cs(1) length_config_calls)
  show "filter is_config_call (calls (run_log m n w)) = config_calls"
    by (simp add: cs(1) loop_calls_no_args[OF cs(2)]) (simp add: config_calls_def)
qed

lemma length_calls: "length (calls tr) = length tr"
  by (simp add: calls_def)

lemma run_log_not_raised:
  assumes "raised_of (observed m n w) = None"
  shows "length (run_log m n w) = 5 + 2 * n"
  unfolding run_log_def using assms by (rule observed_not_raised(2))

lemma loop_log_returned: "loop_log evs x \<Longrightarrow> list_all returned evs \<longleftrightarrow> x = None"
  by (induction evs x rule: loop_log.induct) auto

lemma script_log_returned: "script_log cs evs x \<Longrightarrow> list_all returned evs \<longleftrightarrow> x = None"
proof (induction cs evs x rule: script_log.induct)
  case (1 evs x)
  then show ?case by (simp add: loop_log_returned)
next
  case (2 c cs x)
  then show ?case by simp
next
  case (3 c cs c' r evs x)
  then show ?case by (cases r) auto
qed

lemma loop_log_raised:
  "loop_log evs x \<Longrightarrow> (c, Raised e) \<in> set evs \<Longrightarrow> x = Some e \<and> last evs = (c, Raised e)"
  by (induction evs x rule: loop_log.induct) auto

lemma script_log_raised:
  "script_log cs evs x \<Longrightarrow> (c, Raised e) \<in> set evs \<Longrightarrow> x = Some e \<and> last evs = (c, Raised e)"
proof (induction cs evs x rule: script_log.induct)
  case (1 evs x)
  then show ?case by (simp add: loop_log_raised)
next
  case (2 c cs x)
  then show ?case by simp
next
  case (3 c0 cs c' r evs x)
  then show ?case by (cases r) auto
qed

lemma loop_log_length:
  "loop_log evs None \<Longrightarrow> length evs = 2 * length (displayed evs)"
  by (induction evs "None :: 'b option" rule: loop_log.induct) auto

lemma script_log_length:
  "script_log cs evs None \<Longrightarrow> list_all is_config_call cs \<Longrightarrow>
     length evs = length cs + 2 * length (displayed evs)"
proof (induction cs evs "None :: 'b option" rule: script_log.induct)
  case (1 evs)
  then show ?case by (simp add: loop_log_length)
next
  case (2 c cs)
  then show ?case by simp
next
  case (3 c cs c' r evs)
  then show ?case by (cases r; cases c) auto
qed

lemma main_loop_stable:
  "main_loop m n s = Uncaught e s' \<Longrightarrow> main_loop m (n + k) s = Uncaught e s'"
proof (induction n arbitrary: s)
  case 0
  then show ?case by (simp add: main_loop_0)
next
  case (Suc n)
  show ?case
  proof (cases "expr_stmt (display_snapshot m) s")
    case (Completed s1)
    with Suc.prems have "main_loop m n s1 = Uncaught e s'" by (simp add: main_loop_Suc)
    then have "main_loop m (n + k) s1 = Uncaught e s'" by (rule Suc.IH)
    with Completed show ?thesis by (simp add: main_loop_Suc)
  next
    case (Uncaught e1 s1)
    with Suc.prems show ?thesis by (simp add: main_loop_Suc)
  next
    case (Looping s1)
    then show ?thesis by (simp add: body_not_Looping)
  qed
qed

lemma tv_script_stable:
  assumes "tv_script m n w = Uncaught e s"
  shows "tv_script m (n + k) w = Uncaught e s"
proof (cases "configuration m w")
  case (Completed s0)
  with assms have "main_loop m n s0 = Uncaught e s" by (simp add: tv_script_def seq_def)
  then have "main_loop m (n + k) s0 = Uncaught e s" by (rule main_loop_stable)
  with Completed show ?thesis by (simp add: tv_script_def seq_def)
next
  case (Uncaught e1 s1)
  with assms show ?thesis by (simp add: tv_script_def seq_def)
next
  case (Looping s1)
  with assms show ?thesis by (simp add: tv_script_def seq_def)
qed

lemma observed_stable:
  assumes "observed m n w = Uncaught e s"
  shows "observed m (n + k) w = Uncaught e s"
  using assms unfolding observed_def by (rule tv_script_stable)

lemma seq_Looping:
  "seq a b s = Looping s' \<longleftrightarrow> a s = Looping s' \<or> (\<exists>s1. a s = Completed s1 \<and> b s1 = Looping s')"
  by (cases "a s") (simp_all add: seq_def)

lemma configuration_not_Looping: "configuration m w \<noteq> Looping w'"
  by (simp add: configuration_def seq_Looping stmt_not_Looping)

lemma main_loop_add:
  "main_loop m (j + n) w = (case main_loop m j w of Looping w' \<Rightarrow> main_loop m n w' | r \<Rightarrow> r)"
proof (induction j arbitrary: w)
  case 0
  show ?case by (simp add: main_loop_0)
next
  case (Suc j)
  show ?case
    by (cases "expr_stmt (display_snapshot m) w")
       (simp_all add: main_loop_Suc Suc.IH stmt_not_Looping)
qed

lemma tv_script_add:
  "tv_script m (j + n) w = (case tv_script m j w of Looping w' \<Rightarrow> main_loop m n w' | r \<Rightarrow> r)"
  by (cases "configuration m w")
     (simp_all add: tv_script_def seq_def main_loop_add configuration_not_Looping)

lemma observed_not_Completed: "observed m n w \<noteq> Completed s"
proof (cases "raised_of (observed m n w)")
  case None
  then have "observed m n w = Looping (state_of (observed m n w))"
    by (rule observed_not_raised(1))
  then show ?thesis by (metis result.distinct(3))
next
  case (Some e)
  then have "observed m n w = Uncaught e (state_of (observed m n w))"
    by (rule observed_raised)
  then show ?thesis by (metis result.distinct(1))
qed

lemma loop_log_alternates:
  "loop_log evs x \<Longrightarrow>
     alternates (calls evs)
   \<and> (calls evs = iterations (captured evs)
      \<or> calls evs = iterations (captured evs) @ [Sensor_snapshot])"
  by (induction evs x rule: loop_log.induct) (auto simp: calls_def)

lemma script_log_alternates:
  "script_log cs evs x \<Longrightarrow> list_all is_config_call cs \<Longrightarrow>
     alternates (dropWhile is_config_call (calls evs))
   \<and> (dropWhile is_config_call (calls evs) = iterations (captured evs)
      \<or> dropWhile is_config_call (calls evs) = iterations (captured evs) @ [Sensor_snapshot])"
proof (induction cs evs x rule: script_log.induct)
  case (1 evs x)
  then have l: "loop_log evs x" by simp
  then have "list_all is_loop_call (calls evs)" by (rule loop_log_calls)
  then have "dropWhile is_config_call (calls evs) = calls evs"
    by (rule loop_calls_no_args(7))
  with loop_log_alternates[OF l] show ?case by simp
next
  case (2 c cs x)
  then show ?case by simp
next
  case (3 c cs c' r evs x)
  then show ?case by (cases r; cases c) (auto simp: calls_def)
qed

lemma in_flight_Nil: "in_flight [] = Some []"
  by (simp add: in_flight_def)

lemma in_flight_pair:
  "in_flight ((Sensor_snapshot, Returned img) # (Tv_display img, r) # evs) = in_flight evs"
  by (simp add: in_flight_def)

lemma in_flight_config:
  "is_config_call c \<Longrightarrow> in_flight ((c, r) # evs) = in_flight evs"
  by (cases c; cases r) (simp_all add: in_flight_def)

lemma in_flight_failed_capture:
  "in_flight ((Sensor_snapshot, Raised e) # evs) = in_flight evs"
  by (simp add: in_flight_def)

lemma in_flight_capture: "in_flight [(Sensor_snapshot, Returned img)] = Some [img]"
  by (simp add: in_flight_def)

lemma one_in_flight_0: "one_in_flight tr 0"
  by (simp add: one_in_flight_def in_flight_Nil)

lemma one_in_flight_pair:
  "one_in_flight ((Sensor_snapshot, Returned img) # (Tv_display img, r) # evs) k
     \<longleftrightarrow> k \<le> 1 \<or> one_in_flight evs (k - 2)"
proof (cases k)
  case 0
  then show ?thesis by (simp add: one_in_flight_0)
next
  case (Suc j)
  show ?thesis
  proof (cases j)
    case 0
    with Suc show ?thesis by (simp add: one_in_flight_def in_flight_capture)
  next
    case (Suc i)
    with \<open>k = Suc j\<close> show ?thesis
      by (simp add: one_in_flight_def in_flight_pair split: list.splits option.splits)
  qed
qed

lemma one_in_flight_config:
  "is_config_call c \<Longrightarrow> one_in_flight ((c, r) # evs) k \<longleftrightarrow> k = 0 \<or> one_in_flight evs (k - 1)"
proof (cases k)
  case 0
  then show ?thesis by (simp add: one_in_flight_0)
next
  case (Suc j)
  assume "is_config_call c"
  with Suc show ?thesis
    by (simp add: one_in_flight_def in_flight_config split: list.splits option.splits)
qed

lemma one_in_flight_failed_capture:
  "one_in_flight [(Sensor_snapshot, Raised e)] k"
  by (cases k) (simp_all add: one_in_flight_def in_flight_failed_capture in_flight_Nil
      split: list.splits)

lemma one_in_flight_Nil: "one_in_flight [] k"
  by (simp add: one_in_flight_def in_flight_Nil)

lemma loop_log_in_flight:
  "loop_log evs x \<Longrightarrow> one_in_flight evs k \<and> in_flight evs = Some []"
proof (induction evs x arbitrary: k rule: loop_log.induct)
  case (1 x)
  show ?case by (simp add: one_in_flight_Nil in_flight_Nil)
next
  case (2 e evs x)
  then show ?case
    by (simp add: one_in_flight_failed_capture in_flight_failed_capture in_flight_Nil)
next
  case (3 img img' v evs x)
  then show ?case by (simp add: one_in_flight_pair in_flight_pair)
next
  case (4 img img' e evs x)
  then show ?case
    by (simp add: one_in_flight_pair in_flight_pair one_in_flight_Nil in_flight_Nil)
qed simp_all

lemma script_log_in_flight:
  "script_log cs evs x \<Longrightarrow> list_all is_config_call cs \<Longrightarrow>
     one_in_flight evs k \<and> in_flight evs = Some []"
proof (induction cs evs x arbitrary: k rule: script_log.induct)
  case (1 evs x)
  then show ?case by (simp add: loop_log_in_flight)
next
  case (2 c cs x)
  then show ?case by simp
next
  case (3 c cs c' r evs x)
  then show ?case
    by (cases r) (simp_all add: one_in_flight_config in_flight_config one_in_flight_Nil in_flight_Nil)
qed

lemma one_in_flight_length:
  assumes "one_in_flight tr k"
  shows "\<exists>held. in_flight (take k tr) = Some held \<and> length held \<le> 1"
proof (cases "in_flight (take k tr)")
  case None
  with assms show ?thesis by (simp add: one_in_flight_def)
next
  case (Some held)
  with assms have "length held \<le> 1"
    by (auto simp: one_in_flight_def split: list.splits)
  with Some show ?thesis by simp
qed

lemma script_log_captured_config:
  "script_log cs evs x \<Longrightarrow> list_all is_config_call cs \<Longrightarrow> captured evs \<noteq> [] \<Longrightarrow>
     filter is_config_call (calls evs) = cs"
proof (induction cs evs x rule: script_log.induct)
  case (1 evs x)
  then have "list_all is_loop_call (calls evs)" by (simp add: loop_log_calls)
  then show ?case by (rule loop_calls_no_args(4))
next
  case (2 c cs x)
  then show ?case by simp
next
  case (3 c cs c' r evs x)
  then show ?case by (cases r; cases c) (simp_all add: calls_def)
qed

lemma run_log_captured_config:
  assumes "captured (run_log m n w) \<noteq> []"
  shows "filter is_config_call (calls (run_log m n w)) = config_calls"
  using run_log_script_log[of m n w] config_calls_are_config assms
  by (rule script_log_captured_config)

lemma run_log_displayed: "displayed (run_log m n w) = captured (run_log m n w)"
  using run_log_script_log[of m n w] config_calls_are_config by (rule script_log_displayed)

lemma same_stmt:
  assumes "same_view s s'"
  shows "same_result (expr_stmt (recorded c f) s) (expr_stmt (recorded c (returning g f)) s')"
proof (cases "f (world s)")
  case (Pair r w1)
  with assms show ?thesis
    by (cases r) (simp_all add: stmt_cases returning_def same_view_def calls_def)
qed

lemma same_body:
  assumes "same_view s s'"
  shows "same_result (expr_stmt (display_snapshot (spy m)) s)
           (expr_stmt (display_snapshot (spy (other_results g m))) s')"
proof (cases "sensor_snapshot m (world s)")
  case (Pair r w1)
  show ?thesis
  proof (cases r)
    case (Raised e)
    with Pair assms show ?thesis
      by (simp add: body_cases other_results_def same_view_def calls_def)
  next
    case (Returned img)
    show ?thesis
    proof (cases "tv_display m img w1")
      case (Pair r2 w2)
      with \<open>sensor_snapshot m (world s) = (r, w1)\<close> Returned assms show ?thesis
        by (cases r2)
           (simp_all add: body_cases other_results_def returning_def same_view_def calls_def)
    qed
  qed
qed

lemma same_seq:
  assumes a: "\<And>s s'. same_view s s' \<Longrightarrow> same_result (a s) (a' s')"
    and b: "\<And>s s'. same_view s s' \<Longrightarrow> same_result (b s) (b' s')"
    and v: "same_view s s'"
  shows "same_result (seq a b s) (seq a' b' s')"
proof -
  from a[OF v] show ?thesis
    by (cases "a s"; cases "a' s'") (simp_all add: seq_def b)
qed

lemma same_loop:
  "same_view s s' \<Longrightarrow> same_result (main_loop (spy m) n s) (main_loop (spy (other_results g m)) n s')"
proof (induction n arbitrary: s s')
  case 0
  then show ?case by (simp add: main_loop_0)
next
  case (Suc n)
  from same_body[OF Suc.prems, of m g] show ?case
    by (cases "expr_stmt (display_snapshot (spy m)) s";
        cases "expr_stmt (display_snapshot (spy (other_results g m))) s'")
       (simp_all add: main_loop_Suc Suc.IH)
qed

lemma same_view_start: "same_view (start w) (start w)"
  by (simp add: same_view_def)

lemma same_script: "same_result (observed m n w) (observed (other_results g m) n w)"
  unfolding observed_def tv_script_def configuration_def
  by (intro same_seq same_loop same_view_start)
     (simp_all add: spy_def other_results_def same_stmt)

lemma same_resultD:
  assumes "same_result r r'"
  shows "world (state_of r') = world (state_of r)"
    and "calls (trace (state_of r')) = calls (trace (state_of r))"
    and "raised_of r' = raised_of r"
  using assms by (cases r; cases r'; simp add: same_view_def)+

lemma prepend_prepend: "prepend tr (prepend tr' r) = prepend (tr @ tr') r"
  by (cases r) simp_all

lemma body_prepend:
  "expr_stmt (display_snapshot (spy m)) s
     = prepend (trace s) (expr_stmt (display_snapshot (spy m)) (start (world s)))"
  by (simp add: body_cases start_def split: prod.splits outcome.splits)

lemma main_loop_prepend:
  "main_loop (spy m) n s = prepend (trace s) (main_loop (spy m) n (start (world s)))"
proof (induction n arbitrary: s)
  case 0
  show ?case by (simp add: main_loop_0 start_def)
next
  case (Suc n)
  show ?case
  proof (cases "expr_stmt (display_snapshot (spy m)) (start (world s))")
    case (Completed s1)
    let ?s' = "s1\<lparr>trace := trace s @ trace s1\<rparr>"
    have b: "expr_stmt (display_snapshot (spy m)) s = Completed ?s'"
      using body_prepend[of m s] Completed by simp
    have "main_loop (spy m) (Suc n) s = main_loop (spy m) n ?s'"
      by (simp add: main_loop_Suc b)
    also have "\<dots> = prepend (trace s @ trace s1) (main_loop (spy m) n (start (world s1)))"
      using Suc.IH[of ?s'] by simp
    also have "\<dots> = prepend (trace s) (prepend (trace s1) (main_loop (spy m) n (start (world s1))))"
      by (simp add: prepend_prepend)
    also have "prepend (trace s1) (main_loop (spy m) n (start (world s1))) = main_loop (spy m) n s1"
      using Suc.IH[of s1] by simp
    also have "main_loop (spy m) n s1 = main_loop (spy m) (Suc n) (start (world s))"
      by (simp add: main_loop_Suc Completed)
    finally show ?thesis .
  next
    case (Uncaught e s1)
    then show ?thesis using body_prepend[of m s] by (simp add: main_loop_Suc)
  next
    case (Looping s1)
    then show ?thesis by (simp add: body_not_Looping)
  qed
qed

lemma other_results_run:
  "calls (run_log (other_results g m) n w) = calls (run_log m n w)"
  "world (state_of (observed (other_results g m) n w)) = world (state_of (observed m n w))"
  "raised_of (observed (other_results g m) n w) = raised_of (observed m n w)"
  using same_resultD[OF same_script[of m n w g]] by (simp_all add: run_log_def)

lemma run_log_config_prefix:
  "filter is_config_call (calls (run_log m n w)) = take (length (run_log m n w)) config_calls"
  using run_log_script_log[of m n w] config_calls_are_config by (rule script_log_config)

lemma run_log_config_first:
  "calls (run_log m n w)
     = filter is_config_call (calls (run_log m n w)) @ filter is_loop_call (calls (run_log m n w))"
  using run_log_script_log[of m n w] config_calls_are_config by (rule script_log_config_first)

subsection \<open>The script itself and the script under observation\<close>

lemma tv_script_observed:
  "raised_of (tv_script m n w) = raised_of (observed m n w)"
  "still_looping (tv_script m n w) = still_looping (observed m n w)"
  "state_of (tv_script m n w) = world (state_of (observed m n w))"
  unfolding plain_observed[symmetric] by simp_all

lemma tv_script_not_Completed: "tv_script m n w \<noteq> Completed w'"
proof
  assume "tv_script m n w = Completed w'"
  then have "plain (observed m n w) = Completed w'" by (simp add: plain_observed)
  then obtain s where "observed m n w = Completed s" by (cases "observed m n w") simp_all
  then show False by (simp add: observed_not_Completed)
qed

lemma observed_add:
  "observed m (j + n) w =
     (case observed m j w of
        Looping s \<Rightarrow> prepend (trace s) (main_loop (spy m) n (start (world s)))
      | r \<Rightarrow> r)"
proof (cases "observed m j w")
  case (Looping s)
  then have "observed m (j + n) w = main_loop (spy m) n s"
    by (simp add: observed_def tv_script_add)
  also have "\<dots> = prepend (trace s) (main_loop (spy m) n (start (world s)))"
    by (rule main_loop_prepend)
  finally show ?thesis by (simp add: Looping)
qed (simp_all add: observed_def tv_script_add)

subsection \<open>Values returned by the modules that the script does not use\<close>

lemma stmt_returning: "expr_stmt (returning g f) = expr_stmt f"
  by (rule ext) (simp add: expr_stmt_def returning_def split: prod.splits outcome.splits)

lemma configuration_other_results: "configuration (other_results g m) = configuration m"
  by (simp add: configuration_def other_results_def stmt_returning)

lemma body_other_results:
  "expr_stmt (display_snapshot (other_results g m)) = expr_stmt (display_snapshot m)"
  by (rule ext)
     (simp add: body_effects other_results_def returning_def split: prod.splits outcome.splits)

lemma main_loop_other_results: "main_loop (other_results g m) n = main_loop m n"
  by (simp add: main_loop_def body_other_results)

lemma tv_script_other_results: "tv_script (other_results g m) n w = tv_script m n w"
  by (simp add: tv_script_def configuration_other_results main_loop_other_results)

lemma run_log_loop_calls:
  "dropWhile is_config_call (calls (run_log m n w)) = iterations (captured (run_log m n w))
   \<or> dropWhile is_config_call (calls (run_log m n w))
        = iterations (captured (run_log m n w)) @ [Sensor_snapshot]"
  using script_log_alternates[OF run_log_script_log[of m n w] config_calls_are_config]
  by (rule conjunct2)

lemma run_log_alternates:
  "alternates (dropWhile is_config_call (calls (run_log m n w)))"
  using script_log_alternates[OF run_log_script_log[of m n w] config_calls_are_config]
  by (rule conjunct1)

lemma length_iterations: "length (iterations imgs) = 2 * length imgs"
  by (induction imgs) simp_all

lemma run_log_returned:
  assumes "list_all returned (run_log m n w)"
  shows "raised_of (observed m n w) = None"
    and "still_looping (observed m n w)"
    and "length (displayed (run_log m n w)) = n"
    and "length (captured (run_log m n w)) = n"
proof -
  show none: "raised_of (observed m n w) = None"
    using script_log_returned[OF run_log_script_log[of m n w]] assms by simp
  then have "observed m n w = Looping (state_of (observed m n w))"
    by (rule observed_not_raised(1))
  then show "still_looping (observed m n w)"
    by (metis still_looping.simps(1))
  have "script_log config_calls (run_log m n w) None"
    using run_log_script_log[of m n w] none by simp
  from script_log_length[OF this config_calls_are_config]
  have "length (run_log m n w) = 5 + 2 * length (displayed (run_log m n w))"
    by (simp add: length_config_calls)
  with run_log_not_raised[OF none] show d: "length (displayed (run_log m n w)) = n"
    by simp
  with run_log_displayed[of m n w] show "length (captured (run_log m n w)) = n" by simp
qed

lemma run_log_begun_returned:
  assumes "loop_begins m w" and "list_all returned (run_log m n w)"
  shows "calls (run_log m n w) = config_calls @ iterations (captured (run_log m n w))"
proof -
  have none: "raised_of (observed m n w) = None"
    using assms(2) by (rule run_log_returned(1))
  have c: "length (captured (run_log m n w)) = n"
    using assms(2) by (rule run_log_returned(4))
  have l: "length (dropWhile is_config_call (calls (run_log m n w))) = 2 * n"
    using run_log_not_raised[OF none]
    by (simp add: run_log_begun_takeWhile(2)[OF assms(1)] length_calls)
  have "dropWhile is_config_call (calls (run_log m n w)) = iterations (captured (run_log m n w))"
    using run_log_loop_calls[of m n w]
  proof
    assume "dropWhile is_config_call (calls (run_log m n w))
        = iterations (captured (run_log m n w)) @ [Sensor_snapshot]"
    then have "length (dropWhile is_config_call (calls (run_log m n w))) = Suc (2 * n)"
      by (simp add: length_iterations c)
    with l show ?thesis by simp
  qed
  then have "drop 5 (calls (run_log m n w)) = iterations (captured (run_log m n w))"
    by (simp add: run_log_begun_takeWhile(2)[OF assms(1)])
  moreover have "calls (run_log m n w)
      = take 5 (calls (run_log m n w)) @ drop 5 (calls (run_log m n w))"
    by simp
  ultimately show ?thesis
    by (simp only: run_log_begun_takeWhile(4)[OF assms(1)])
qed
section \<open>The claims\<close>

text \<open>
  The theorems speak of two things. The script itself, \<open>tv_script m n w\<close>, applies the
  operations of the modules \<open>m\<close> to the world. The log \<open>run_log m n w\<close> is what those
  operations saw: each entry was written by the operation that was called, with the
  argument that it was given. The witnesses run the test double on the frames 1, 2
  and 3.
\<close>

text \<open>
  Claim C1. In every run, whatever the modules do and however long the loop is observed,
  the display is invoked exactly once for each capture that returned a frame, with the
  very object that the capture returned, in the order of the captures: the sequence of
  the arguments that \<^verbatim>\<open>tv.display\<close> received is the sequence of the frames that
  \<^verbatim>\<open>sensor.snapshot\<close> returned, and each display follows its capture at once. In the
  world of the modules, the loop body is the display operation applied to the frame
  that the capture returned, in the world that the capture left; when the capture
  raises, no display takes place.
\<close>

theorem display_once_per_capture:
  "displayed (run_log m n w) = captured (run_log m n w)
   \<and> (dropWhile is_config_call (calls (run_log m n w)) = iterations (captured (run_log m n w))
      \<or> dropWhile is_config_call (calls (run_log m n w))
           = iterations (captured (run_log m n w)) @ [Sensor_snapshot])
   \<and> (\<forall>u img u1. sensor_snapshot m u = (Returned img, u1) \<longrightarrow>
         display_snapshot m u = tv_display m img u1)
   \<and> (\<forall>u e u1. sensor_snapshot m u = (Raised e, u1) \<longrightarrow>
         display_snapshot m u = (Raised e, u1))"
proof (intro conjI allI impI)
  show "displayed (run_log m n w) = captured (run_log m n w)"
    by (rule run_log_displayed)
  show "dropWhile is_config_call (calls (run_log m n w)) = iterations (captured (run_log m n w))
      \<or> dropWhile is_config_call (calls (run_log m n w))
           = iterations (captured (run_log m n w)) @ [Sensor_snapshot]"
    by (rule run_log_loop_calls)
  show "display_snapshot m u = tv_display m img u1"
    if "sensor_snapshot m u = (Returned img, u1)" for u img u1
    using that by (simp add: display_snapshot_def)
  show "display_snapshot m u = (Raised e, u1)"
    if "sensor_snapshot m u = (Raised e, u1)" for u e u1
    using that by (simp add: display_snapshot_def)
qed

text \<open>
  The scenario of the specification: the capture returns the frames 1, 2 and 3, the
  display receives them in that order, and they are what the screen has shown.
\<close>

theorem display_once_per_capture_witness:
  "captured (run_log mock 3 (power_on [1, 2, 3])) = [Frame 1, Frame 2, Frame 3]
   \<and> displayed (run_log mock 3 (power_on [1, 2, 3])) = [Frame 1, Frame 2, Frame 3]
   \<and> screen (state_of (tv_script mock 3 (power_on [1, 2, 3]))) = [Frame 1, Frame 2, Frame 3]
   \<and> sensor_snapshot mock (power_on [1, 2, 3]) = (Returned (Frame 1), power_on [2, 3])
   \<and> display_snapshot mock (power_on [1, 2, 3]) = tv_display mock (Frame 1) (power_on [2, 3])
   \<and> sensor_snapshot mock (power_on []) = (Raised Sensor_timeout, power_on [])
   \<and> display_snapshot mock (power_on []) = (Raised Sensor_timeout, power_on [])"
proof -
  have c: "captured (run_log mock 3 (power_on [1, 2, 3])) = [Frame 1, Frame 2, Frame 3]"
    by code_simp
  have s: "screen (state_of (tv_script mock 3 (power_on [1, 2, 3]))) = [Frame 1, Frame 2, Frame 3]"
    by code_simp
  have r: "sensor_snapshot mock (power_on [1, 2, 3]) = (Returned (Frame 1), power_on [2, 3])"
    by (simp add: mock_def power_on_def)
  have e: "sensor_snapshot mock (power_on []) = (Raised Sensor_timeout, power_on [])"
    by (simp add: mock_def power_on_def)
  note t = display_once_per_capture[of mock 3 "power_on [1, 2, 3]"]
  from t have d: "displayed (run_log mock 3 (power_on [1, 2, 3])) = [Frame 1, Frame 2, Frame 3]"
    using c by simp
  from t r have dr: "display_snapshot mock (power_on [1, 2, 3])
      = tv_display mock (Frame 1) (power_on [2, 3])"
    by blast
  from t e have de: "display_snapshot mock (power_on []) = (Raised Sensor_timeout, power_on [])"
    by blast
  from c d s r dr e de show ?thesis by (intro conjI)
qed

text \<open>
  Claim C9. The values that the script configures are the arguments that reach the
  set-up operations: in every run, whenever \<^verbatim>\<open>sensor.set_pixformat\<close> is called it
  receives RGB565, whenever \<^verbatim>\<open>sensor.set_framesize\<close> is called it receives QQVGA and
  whenever \<^verbatim>\<open>tv.channel\<close> is called it receives 8; and in a run that enters the loop
  each of the three operations is called once, with exactly that argument.
\<close>

theorem configured_values:
  "set (pixformat_args (calls (run_log m n w))) \<subseteq> {RGB565}
   \<and> set (framesize_args (calls (run_log m n w))) \<subseteq> {QQVGA}
   \<and> set (channel_args (calls (run_log m n w))) \<subseteq> {8}
   \<and> (loop_begins m w \<longrightarrow>
        pixformat_args (calls (run_log m n w)) = [RGB565]
      \<and> framesize_args (calls (run_log m n w)) = [QQVGA]
      \<and> channel_args (calls (run_log m n w)) = [8])"
proof -
  have always: "set (pixformat_args (calls (run_log m n w))) \<subseteq> {RGB565}
   \<and> set (framesize_args (calls (run_log m n w))) \<subseteq> {QQVGA}
   \<and> set (channel_args (calls (run_log m n w))) \<subseteq> {8}"
    using script_log_args[OF run_log_script_log[of m n w]] by (simp add: config_calls_def)
  have begun: "pixformat_args (calls (run_log m n w)) = [RGB565]
      \<and> framesize_args (calls (run_log m n w)) = [QQVGA]
      \<and> channel_args (calls (run_log m n w)) = [8]" if "loop_begins m w"
  proof -
    from that obtain cs where cs: "calls (run_log m n w) = config_calls @ cs"
      "list_all is_loop_call cs" by (rule run_calls_begun)
    show ?thesis
      by (simp add: cs(1) config_calls_def loop_calls_no_args[OF cs(2)])
  qed
  from always begun show ?thesis by simp
qed

text \<open>
  On the test double the three values are also what the board holds after the run.
\<close>

theorem configured_values_witness:
  "loop_begins mock (power_on [1, 2, 3])
   \<and> pixformat_args (calls (run_log mock 3 (power_on [1, 2, 3]))) = [RGB565]
   \<and> framesize_args (calls (run_log mock 3 (power_on [1, 2, 3]))) = [QQVGA]
   \<and> channel_args (calls (run_log mock 3 (power_on [1, 2, 3]))) = [8]
   \<and> format_reg (state_of (tv_script mock 3 (power_on [1, 2, 3]))) = Some RGB565
   \<and> size_reg (state_of (tv_script mock 3 (power_on [1, 2, 3]))) = Some QQVGA
   \<and> channel_reg (state_of (tv_script mock 3 (power_on [1, 2, 3]))) = Some 8"
proof -
  have h: "loop_begins mock (power_on [1, 2, 3])" by code_simp
  have b: "format_reg (state_of (tv_script mock 3 (power_on [1, 2, 3]))) = Some RGB565
   \<and> size_reg (state_of (tv_script mock 3 (power_on [1, 2, 3]))) = Some QQVGA
   \<and> channel_reg (state_of (tv_script mock 3 (power_on [1, 2, 3]))) = Some 8"
    by code_simp
  from configured_values[of mock 3 "power_on [1, 2, 3]"] h b show ?thesis by simp
qed

text \<open>
  Claim C7, as amended: the entire content of the script is five configuration calls
  followed by a two-line display loop. The script is the configuration followed by the
  loop and nothing else, and the loop is the \<^verbatim>\<open>while\<close> line, whose condition is the
  constant true, over the one statement of line 15. In a run that enters the loop the
  first five calls received by the modules are reset, set pixel format to RGB565, set
  frame size to QQVGA, init and set channel to 8, in this order; the calls after them
  are, for each frame captured, the capture followed by the display of that frame, and
  at most a last capture that raised. A run of \<open>n\<close> iterations in which every call
  returned consists of exactly these five calls and \<open>n\<close> such pairs.
\<close>

theorem five_calls_then_loop:
  "tv_script m n = seq (configuration m) (while_stmt (\<lambda>w. True) (expr_stmt (display_snapshot m)) n)
   \<and> (loop_begins m w \<longrightarrow>
        takeWhile is_config_call (calls (run_log m n w))
          = [Sensor_reset, Sensor_set_pixformat RGB565, Sensor_set_framesize QQVGA,
             Tv_init, Tv_channel 8]
      \<and> (drop 5 (calls (run_log m n w)) = iterations (captured (run_log m n w))
         \<or> drop 5 (calls (run_log m n w)) = iterations (captured (run_log m n w)) @ [Sensor_snapshot])
      \<and> (list_all returned (run_log m n w) \<longrightarrow>
           calls (run_log m n w)
             = [Sensor_reset, Sensor_set_pixformat RGB565, Sensor_set_framesize QQVGA,
                Tv_init, Tv_channel 8] @ iterations (captured (run_log m n w))
         \<and> length (captured (run_log m n w)) = n))"
proof (intro conjI impI)
  show "tv_script m n = seq (configuration m) (while_stmt (\<lambda>w. True) (expr_stmt (display_snapshot m)) n)"
    by (rule ext) (simp add: tv_script_def main_loop_def)
next
  assume b: "loop_begins m w"
  show "takeWhile is_config_call (calls (run_log m n w))
          = [Sensor_reset, Sensor_set_pixformat RGB565, Sensor_set_framesize QQVGA,
             Tv_init, Tv_channel 8]"
    using run_log_begun_takeWhile(1)[OF b, of n] by (simp add: config_calls_def)
  show "drop 5 (calls (run_log m n w)) = iterations (captured (run_log m n w))
         \<or> drop 5 (calls (run_log m n w)) = iterations (captured (run_log m n w)) @ [Sensor_snapshot]"
    using run_log_loop_calls[of m n w] by (simp add: run_log_begun_takeWhile(2)[OF b])
next
  assume b: "loop_begins m w" and r: "list_all returned (run_log m n w)"
  show "calls (run_log m n w)
             = [Sensor_reset, Sensor_set_pixformat RGB565, Sensor_set_framesize QQVGA,
                Tv_init, Tv_channel 8] @ iterations (captured (run_log m n w))"
    using run_log_begun_returned[OF b r] by (simp add: config_calls_def)
  show "length (captured (run_log m n w)) = n"
    using r by (rule run_log_returned(4))
qed

text \<open>
  On the test double: five calls, then three pairs of a capture and the display of its
  frame.
\<close>

theorem five_calls_then_loop_witness:
  "loop_begins mock (power_on [1, 2, 3])
   \<and> list_all returned (run_log mock 3 (power_on [1, 2, 3]))
   \<and> takeWhile is_config_call (calls (run_log mock 3 (power_on [1, 2, 3])))
       = [Sensor_reset, Sensor_set_pixformat RGB565, Sensor_set_framesize QQVGA,
          Tv_init, Tv_channel 8]
   \<and> calls (run_log mock 3 (power_on [1, 2, 3]))
       = [Sensor_reset, Sensor_set_pixformat RGB565, Sensor_set_framesize QQVGA,
          Tv_init, Tv_channel 8]
         @ iterations (captured (run_log mock 3 (power_on [1, 2, 3])))
   \<and> captured (run_log mock 3 (power_on [1, 2, 3])) = [Frame 1, Frame 2, Frame 3]"
proof -
  have h: "loop_begins mock (power_on [1, 2, 3])" by code_simp
  have r: "list_all returned (run_log mock 3 (power_on [1, 2, 3]))" by code_simp
  have c: "captured (run_log mock 3 (power_on [1, 2, 3])) = [Frame 1, Frame 2, Frame 3]"
    by code_simp
  from five_calls_then_loop[of mock 3 "power_on [1, 2, 3]"] h r c show ?thesis by blast
qed

text \<open>
  The claim as the specification has it, with three calls before the loop, fails on
  the run of the test double with three frames: the calls before the loop are five.
\<close>

theorem three_configuration_calls_counterexample:
  "length (takeWhile is_config_call (calls (run_log mock 3 (power_on [1, 2, 3])))) \<noteq> 3"
  by code_simp

text \<open>
  Claim C3. The loop has no exit: no run of the script ever completes, with or without
  the spies. For every \<open>n\<close>, a run in which no call has raised during the first \<open>n\<close>
  iterations is still inside the loop after them, with \<open>n\<close> frames captured and \<open>n\<close>
  displayed; the only other way a run can be found is ended by an exception that a
  call into the modules raised.
\<close>

theorem loop_never_exits:
  "(\<forall>w'. tv_script m n w \<noteq> Completed w')
   \<and> (\<forall>s. observed m n w \<noteq> Completed s)
   \<and> (list_all returned (run_log m n w) \<longrightarrow>
        still_looping (tv_script m n w)
      \<and> still_looping (observed m n w)
      \<and> length (captured (run_log m n w)) = n
      \<and> length (displayed (run_log m n w)) = n)
   \<and> (\<not> list_all returned (run_log m n w) \<longrightarrow>
        (\<exists>e. raised_of (tv_script m n w) = Some e \<and> raised_of (observed m n w) = Some e))"
proof (intro conjI allI impI)
  fix w' show "tv_script m n w \<noteq> Completed w'" by (rule tv_script_not_Completed)
next
  fix s show "observed m n w \<noteq> Completed s" by (rule observed_not_Completed)
next
  assume r: "list_all returned (run_log m n w)"
  show "still_looping (observed m n w)" using r by (rule run_log_returned(2))
  then show "still_looping (tv_script m n w)" by (simp add: tv_script_observed(2))
  show "length (captured (run_log m n w)) = n" using r by (rule run_log_returned(4))
  show "length (displayed (run_log m n w)) = n" using r by (rule run_log_returned(3))
next
  assume "\<not> list_all returned (run_log m n w)"
  then have "raised_of (observed m n w) \<noteq> None"
    using script_log_returned[OF run_log_script_log[of m n w]] by simp
  then obtain e where "raised_of (observed m n w) = Some e" by auto
  then show "\<exists>e. raised_of (tv_script m n w) = Some e \<and> raised_of (observed m n w) = Some e"
    by (simp add: tv_script_observed(1))
qed

theorem loop_never_exits_witness:
  "list_all returned (run_log mock 3 (power_on [1, 2, 3]))
   \<and> still_looping (tv_script mock 3 (power_on [1, 2, 3]))
   \<and> length (captured (run_log mock 3 (power_on [1, 2, 3]))) = 3
   \<and> length (displayed (run_log mock 3 (power_on [1, 2, 3]))) = 3
   \<and> \<not> list_all returned (run_log mock 4 (power_on [1, 2, 3]))
   \<and> (\<exists>e. raised_of (tv_script mock 4 (power_on [1, 2, 3])) = Some e)"
proof -
  have a: "list_all returned (run_log mock 3 (power_on [1, 2, 3]))"
    by code_simp
  have b: "\<not> list_all returned (run_log mock 4 (power_on [1, 2, 3]))"
    by code_simp
  from loop_never_exits[of mock 3 "power_on [1, 2, 3]"]
    loop_never_exits[of mock 4 "power_on [1, 2, 3]"] a b
  show ?thesis by blast
qed

text \<open>
  Claim C4. The script handles no error. Whenever a call into the modules raises (the
  capture and the display among them), that call is the last thing the script does:
  the exception leaves the script uncaught and ends the run, and observing the run for
  longer shows nothing more, neither in the world nor in the log.
\<close>

theorem errors_propagate:
  "(c, Raised e) \<in> set (run_log m n w) \<longrightarrow>
     raised_of (tv_script m n w) = Some e
   \<and> raised_of (observed m n w) = Some e
   \<and> last (run_log m n w) = (c, Raised e)
   \<and> (\<forall>k. tv_script m (n + k) w = tv_script m n w)
   \<and> (\<forall>k. observed m (n + k) w = observed m n w)"
proof
  assume "(c, Raised e) \<in> set (run_log m n w)"
  with run_log_script_log[of m n w]
  have r: "raised_of (observed m n w) = Some e \<and> last (run_log m n w) = (c, Raised e)"
    by (rule script_log_raised)
  have u: "observed m n w = Uncaught e (state_of (observed m n w))"
    by (rule observed_raised) (rule r[THEN conjunct1])
  have o: "observed m (n + k) w = observed m n w" for k
    by (rule trans[OF observed_stable[OF u] u[symmetric]])
  have p: "tv_script m (n + k) w = tv_script m n w" for k
    using arg_cong[OF o[of k], of plain] by (simp only: plain_observed)
  have q: "raised_of (tv_script m n w) = Some e"
    using r by (simp add: tv_script_observed(1))
  from r o p q show "raised_of (tv_script m n w) = Some e
   \<and> raised_of (observed m n w) = Some e
   \<and> last (run_log m n w) = (c, Raised e)
   \<and> (\<forall>k. tv_script m (n + k) w = tv_script m n w)
   \<and> (\<forall>k. observed m (n + k) w = observed m n w)" by simp
qed

theorem errors_propagate_witness:
  "(Sensor_snapshot, Raised Sensor_timeout) \<in> set (run_log mock 4 (power_on [1, 2, 3]))
   \<and> raised_of (tv_script mock 4 (power_on [1, 2, 3])) = Some Sensor_timeout
   \<and> last (run_log mock 4 (power_on [1, 2, 3])) = (Sensor_snapshot, Raised Sensor_timeout)
   \<and> (\<forall>k. tv_script mock (4 + k) (power_on [1, 2, 3]) = tv_script mock 4 (power_on [1, 2, 3]))"
proof -
  have h: "(Sensor_snapshot, Raised Sensor_timeout) \<in> set (run_log mock 4 (power_on [1, 2, 3]))"
    by code_simp
  with errors_propagate[of Sensor_snapshot Sensor_timeout mock 4 "power_on [1, 2, 3]"]
  show ?thesis by simp
qed

text \<open>
  Claim C5. The script is one sequential thread: the calls that the modules receive in
  the loop strictly alternate capture, display, capture, display. They are, for each
  frame captured and in that order, the capture followed at once by the display of
  that frame; the only call that can come after them is a last capture that raised.
  In the world of the modules an iteration is the capture, then the display applied to
  the captured frame in the world that the capture left, and the next iteration starts
  in the world that the display left, so that the iterations do not overlap.
\<close>

theorem calls_alternate:
  "alternates (dropWhile is_config_call (calls (run_log m n w)))
   \<and> (dropWhile is_config_call (calls (run_log m n w)) = iterations (captured (run_log m n w))
      \<or> dropWhile is_config_call (calls (run_log m n w))
           = iterations (captured (run_log m n w)) @ [Sensor_snapshot])
   \<and> main_loop m (Suc k) u =
       (case sensor_snapshot m u of
          (Raised e, u1) \<Rightarrow> Uncaught e u1
        | (Returned img, u1) \<Rightarrow>
            (case tv_display m img u1 of
               (Raised e, u2) \<Rightarrow> Uncaught e u2
             | (Returned v, u2) \<Rightarrow> main_loop m k u2))"
proof (intro conjI)
  show "alternates (dropWhile is_config_call (calls (run_log m n w)))"
    by (rule run_log_alternates)
  show "dropWhile is_config_call (calls (run_log m n w)) = iterations (captured (run_log m n w))
      \<or> dropWhile is_config_call (calls (run_log m n w))
           = iterations (captured (run_log m n w)) @ [Sensor_snapshot]"
    by (rule run_log_loop_calls)
  show "main_loop m (Suc k) u =
       (case sensor_snapshot m u of
          (Raised e, u1) \<Rightarrow> Uncaught e u1
        | (Returned img, u1) \<Rightarrow>
            (case tv_display m img u1 of
               (Raised e, u2) \<Rightarrow> Uncaught e u2
             | (Returned v, u2) \<Rightarrow> main_loop m k u2))"
    by (simp add: main_loop_Suc body_effects split: prod.splits outcome.splits)
qed

theorem calls_alternate_witness:
  "dropWhile is_config_call (calls (run_log mock 3 (power_on [1, 2, 3])))
     = [Sensor_snapshot, Tv_display (Frame 1), Sensor_snapshot, Tv_display (Frame 2),
        Sensor_snapshot, Tv_display (Frame 3)]
   \<and> alternates (dropWhile is_config_call (calls (run_log mock 3 (power_on [1, 2, 3]))))"
proof -
  have "dropWhile is_config_call (calls (run_log mock 3 (power_on [1, 2, 3])))
     = [Sensor_snapshot, Tv_display (Frame 1), Sensor_snapshot, Tv_display (Frame 2),
        Sensor_snapshot, Tv_display (Frame 3)]"
    by code_simp
  then show ?thesis
    using calls_alternate[of mock 3 "power_on [1, 2, 3]", THEN conjunct1] by (rule conjI)
qed

text \<open>
  Claim C6. At every point of every run at most one frame is in flight: after any
  number \<open>k\<close> of calls the script holds no frame, or it holds the one frame that the
  last capture returned and its very next call is the display of that frame; it never
  displays a frame that it does not hold. At the end of every observation no frame is
  held. Nothing is retained across iterations and there is no history: after \<open>j\<close>
  iterations the script goes on as the loop does when it is started afresh in the
  world then reached, and the calls that it makes from there on are the calls of that
  fresh loop, whatever frames were captured before.
\<close>

theorem one_frame_in_flight:
  "(\<exists>held. in_flight (take k (run_log m n w)) = Some held \<and> length held \<le> 1)
   \<and> one_in_flight (run_log m n w) k
   \<and> in_flight (run_log m n w) = Some []
   \<and> tv_script m (j + n) w =
       (case tv_script m j w of Looping w' \<Rightarrow> main_loop m n w' | r \<Rightarrow> r)
   \<and> observed m (j + n) w =
       (case observed m j w of
          Looping s \<Rightarrow> prepend (trace s) (main_loop (spy m) n (start (world s)))
        | r \<Rightarrow> r)"
proof -
  have f: "one_in_flight (run_log m n w) k \<and> in_flight (run_log m n w) = Some []"
    using run_log_script_log[of m n w] config_calls_are_config by (rule script_log_in_flight)
  have "\<exists>held. in_flight (take k (run_log m n w)) = Some held \<and> length held \<le> 1"
    using f[THEN conjunct1] by (rule one_in_flight_length)
  with f show ?thesis
    by (intro conjI tv_script_add observed_add) simp_all
qed

theorem one_frame_in_flight_witness:
  "in_flight (take 6 (run_log mock 3 (power_on [1, 2, 3]))) = Some [Frame 1]
   \<and> fst (run_log mock 3 (power_on [1, 2, 3]) ! 6) = Tv_display (Frame 1)
   \<and> one_in_flight (run_log mock 3 (power_on [1, 2, 3])) 6
   \<and> in_flight (run_log mock 3 (power_on [1, 2, 3])) = Some []
   \<and> tv_script mock 1 (power_on [1, 2, 3]) = Looping (state_of (tv_script mock 1 (power_on [1, 2, 3])))
   \<and> tv_script mock (1 + 3) (power_on [1, 2, 3])
       = main_loop mock 3 (state_of (tv_script mock 1 (power_on [1, 2, 3])))"
proof -
  have a: "in_flight (take 6 (run_log mock 3 (power_on [1, 2, 3]))) = Some [Frame 1]
   \<and> fst (run_log mock 3 (power_on [1, 2, 3]) ! 6) = Tv_display (Frame 1)"
    by code_simp
  have l: "tv_script mock 1 (power_on [1, 2, 3])
      = Looping (state_of (tv_script mock 1 (power_on [1, 2, 3])))"
    by code_simp
  note t = one_frame_in_flight[of 6 mock 3 "power_on [1, 2, 3]" 1]
  have s: "tv_script mock (1 + 3) (power_on [1, 2, 3])
       = main_loop mock 3 (state_of (tv_script mock 1 (power_on [1, 2, 3])))"
    by (subst t[THEN conjunct2, THEN conjunct2, THEN conjunct2, THEN conjunct1], subst l) simp
  from a t l s show ?thesis by (intro conjI) simp_all
qed

text \<open>
  The claim C10 as the specification has it fails. On a board without a sensor the
  reset raises and is the only call of the run; on a board whose sensor delivers no
  frame all five configuration calls are made and the first capture raises. In both
  runs the captures returned the same sequence of frames, the empty one, and the
  set-up calls differ.
\<close>

theorem same_frames_other_setup_counterexample:
  "captured (run_log no_sensor 1 (power_on [])) = captured (run_log mock 1 (power_on []))
   \<and> filter is_config_call (calls (run_log no_sensor 1 (power_on []))) = [Sensor_reset]
   \<and> filter is_config_call (calls (run_log mock 1 (power_on [])))
       = [Sensor_reset, Sensor_set_pixformat RGB565, Sensor_set_framesize QQVGA,
          Tv_init, Tv_channel 8]"
  by code_simp

text \<open>
  Claim C10, as amended: for any two runs that both enter the loop. The script reads
  nothing but what its collaborators return. Two runs, with whatever modules, worlds
  and observation lengths, in which the captures returned the same sequence of frames
  pass the same sequence of arguments to the display; and they make the same sequence
  of configuration calls, with the same arguments, as soon as both enter the loop,
  which is the case whenever a frame has been captured at all.
\<close>

theorem deterministic_in_frames:
  "captured (run_log m1 n1 w1) = captured (run_log m2 n2 w2) \<longrightarrow>
     displayed (run_log m1 n1 w1) = displayed (run_log m2 n2 w2)
   \<and> (loop_begins m1 w1 \<and> loop_begins m2 w2 \<longrightarrow>
        filter is_config_call (calls (run_log m1 n1 w1))
          = filter is_config_call (calls (run_log m2 n2 w2)))
   \<and> (captured (run_log m1 n1 w1) \<noteq> [] \<longrightarrow>
        filter is_config_call (calls (run_log m1 n1 w1))
          = filter is_config_call (calls (run_log m2 n2 w2)))"
proof (intro impI conjI)
  assume eq: "captured (run_log m1 n1 w1) = captured (run_log m2 n2 w2)"
  show "displayed (run_log m1 n1 w1) = displayed (run_log m2 n2 w2)"
    by (simp add: run_log_displayed eq)
  show "filter is_config_call (calls (run_log m1 n1 w1))
          = filter is_config_call (calls (run_log m2 n2 w2))"
    if "loop_begins m1 w1 \<and> loop_begins m2 w2"
    using that by (simp add: run_log_begun_takeWhile(5))
  show "filter is_config_call (calls (run_log m1 n1 w1))
          = filter is_config_call (calls (run_log m2 n2 w2))"
    if ne: "captured (run_log m1 n1 w1) \<noteq> []"
  proof -
    from ne eq have "captured (run_log m2 n2 w2) \<noteq> []" by simp
    then show ?thesis by (simp add: run_log_captured_config ne)
  qed
qed

theorem deterministic_in_frames_witness:
  "captured (run_log mock 3 (power_on [1, 2, 3])) = captured (run_log mock 5 (power_on [1, 2, 3]))
   \<and> loop_begins mock (power_on [1, 2, 3])
   \<and> captured (run_log mock 3 (power_on [1, 2, 3])) \<noteq> []
   \<and> displayed (run_log mock 3 (power_on [1, 2, 3])) = displayed (run_log mock 5 (power_on [1, 2, 3]))
   \<and> filter is_config_call (calls (run_log mock 3 (power_on [1, 2, 3])))
        = filter is_config_call (calls (run_log mock 5 (power_on [1, 2, 3])))"
proof -
  have h: "captured (run_log mock 3 (power_on [1, 2, 3]))
      = captured (run_log mock 5 (power_on [1, 2, 3]))"
    by code_simp
  have b: "loop_begins mock (power_on [1, 2, 3])" by code_simp
  have ne: "captured (run_log mock 3 (power_on [1, 2, 3])) \<noteq> []"
    by code_simp
  from deterministic_in_frames[of mock 3 "power_on [1, 2, 3]" mock 5 "power_on [1, 2, 3]"] h b ne
  show ?thesis by blast
qed

text \<open>
  Claim C2. In every run the configuration calls that the modules receive are an
  initial part of the list reset, set pixel format, set frame size, init, set channel,
  in that order, and they all come before every call of the loop. In a run that enters
  the loop they are exactly that list: the first five calls of the run, each operation
  invoked once, and every later call is a capture or a display. The configuration is
  write-only: whatever objects the five operations return, the script does the same
  to the world, ends the same and makes the same calls, so it neither reads back nor
  checks anything.
\<close>

theorem configuration_once_in_order:
  "filter is_config_call (calls (run_log m n w))
     = take (length (run_log m n w))
         [Sensor_reset, Sensor_set_pixformat RGB565, Sensor_set_framesize QQVGA,
          Tv_init, Tv_channel 8]
   \<and> calls (run_log m n w)
       = filter is_config_call (calls (run_log m n w)) @ filter is_loop_call (calls (run_log m n w))
   \<and> (loop_begins m w \<longrightarrow>
        take 5 (calls (run_log m n w))
          = [Sensor_reset, Sensor_set_pixformat RGB565, Sensor_set_framesize QQVGA,
             Tv_init, Tv_channel 8]
      \<and> filter is_config_call (calls (run_log m n w))
          = [Sensor_reset, Sensor_set_pixformat RGB565, Sensor_set_framesize QQVGA,
             Tv_init, Tv_channel 8]
      \<and> list_all is_loop_call (drop 5 (calls (run_log m n w))))
   \<and> calls (run_log (other_config_results g m) n w) = calls (run_log m n w)
   \<and> tv_script (other_config_results g m) n w = tv_script m n w"
proof (intro conjI impI)
  show "filter is_config_call (calls (run_log m n w))
     = take (length (run_log m n w))
         [Sensor_reset, Sensor_set_pixformat RGB565, Sensor_set_framesize QQVGA,
          Tv_init, Tv_channel 8]"
    using run_log_config_prefix[of m n w] by (simp only: config_calls_def)
  show "calls (run_log m n w)
       = filter is_config_call (calls (run_log m n w)) @ filter is_loop_call (calls (run_log m n w))"
    by (rule run_log_config_first)
  show "take 5 (calls (run_log m n w))
          = [Sensor_reset, Sensor_set_pixformat RGB565, Sensor_set_framesize QQVGA,
             Tv_init, Tv_channel 8]" if "loop_begins m w"
    using run_log_begun_takeWhile(4)[OF that, of n] by (simp only: config_calls_def)
  show "filter is_config_call (calls (run_log m n w))
          = [Sensor_reset, Sensor_set_pixformat RGB565, Sensor_set_framesize QQVGA,
             Tv_init, Tv_channel 8]" if "loop_begins m w"
    using run_log_begun_takeWhile(5)[OF that, of n] by (simp only: config_calls_def)
  show "list_all is_loop_call (drop 5 (calls (run_log m n w)))" if "loop_begins m w"
    using that by (rule run_log_begun_takeWhile(3))
  show "calls (run_log (other_config_results g m) n w) = calls (run_log m n w)"
    unfolding other_config_results_def by (rule other_results_run(1))
  show "tv_script (other_config_results g m) n w = tv_script m n w"
    unfolding other_config_results_def by (rule tv_script_other_results)
qed

text \<open>
  On the test double the five calls are made once each, in order, before the loop, and
  they leave their three settings on the board.
\<close>

theorem configuration_once_in_order_witness:
  "loop_begins mock (power_on [1, 2, 3])
   \<and> take 5 (calls (run_log mock 3 (power_on [1, 2, 3])))
       = [Sensor_reset, Sensor_set_pixformat RGB565, Sensor_set_framesize QQVGA,
          Tv_init, Tv_channel 8]
   \<and> filter is_config_call (calls (run_log mock 3 (power_on [1, 2, 3])))
       = [Sensor_reset, Sensor_set_pixformat RGB565, Sensor_set_framesize QQVGA,
          Tv_init, Tv_channel 8]
   \<and> list_all is_loop_call (drop 5 (calls (run_log mock 3 (power_on [1, 2, 3]))))
   \<and> configuration mock (power_on [1, 2, 3])
       = Completed \<lparr>format_reg = Some RGB565, size_reg = Some QQVGA, channel_reg = Some 8,
                    pending = [1, 2, 3], screen = []\<rparr>"
proof -
  have h: "loop_begins mock (power_on [1, 2, 3])" by code_simp
  have c: "configuration mock (power_on [1, 2, 3])
       = Completed \<lparr>format_reg = Some RGB565, size_reg = Some QQVGA, channel_reg = Some 8,
                    pending = [1, 2, 3], screen = []\<rparr>"
    by code_simp
  from configuration_once_in_order[of mock 3 "power_on [1, 2, 3]"] h c show ?thesis by blast
qed

text \<open>
  The claim C8 as the specification has it fails: the loop body has an effect that is
  not an effect of the display call. On the test double the body takes the frame 1
  from the sensor, while the display call alone leaves the sensor as it is.
\<close>

theorem capture_effect_counterexample:
  "pending (state_of (expr_stmt (display_snapshot mock) (power_on [1, 2, 3]))) = [2, 3]
   \<and> pending (snd (tv_display mock (Frame 1) (power_on [1, 2, 3]))) = [1, 2, 3]"
  by code_simp

text \<open>
  Claim C8, as amended: the loop body has no effect other than the side effects of the
  capture call and of the display call. The body changes the world as the capture
  followed by the display of the captured frame does, and by nothing else, and the
  modules receive from it these two calls only. The body produces no value: the
  object that the display returns is thrown away, and whatever it is the script does
  the same to the world, ends the same and makes the same calls. No state is carried
  from one iteration to the next: every iteration is the same statement, started in
  the world that the previous one left, and the loop does from any state what it does
  when started afresh in the world of that state.
\<close>

theorem loop_body_effects:
  "expr_stmt (display_snapshot m) u =
     (case sensor_snapshot m u of
        (Raised e, u1) \<Rightarrow> Uncaught e u1
      | (Returned img, u1) \<Rightarrow>
          (case tv_display m img u1 of
             (Raised e, u2) \<Rightarrow> Uncaught e u2
           | (Returned v, u2) \<Rightarrow> Completed u2))
   \<and> expr_stmt (display_snapshot (spy m)) s =
       (case sensor_snapshot m (world s) of
          (Raised e, u1) \<Rightarrow>
            Uncaught e \<lparr>world = u1, trace = trace s @ [(Sensor_snapshot, Raised e)]\<rparr>
        | (Returned img, u1) \<Rightarrow>
            (case tv_display m img u1 of
               (Raised e, u2) \<Rightarrow> Uncaught e \<lparr>world = u2,
                  trace = trace s @ [(Sensor_snapshot, Returned img), (Tv_display img, Raised e)]\<rparr>
             | (Returned v, u2) \<Rightarrow> Completed \<lparr>world = u2,
                  trace = trace s @ [(Sensor_snapshot, Returned img), (Tv_display img, Returned v)]\<rparr>))
   \<and> tv_script (other_display_results g m) n w = tv_script m n w
   \<and> calls (run_log (other_display_results g m) n w) = calls (run_log m n w)
   \<and> main_loop m (Suc k) u =
       (case expr_stmt (display_snapshot m) u of Completed u' \<Rightarrow> main_loop m k u' | r \<Rightarrow> r)
   \<and> main_loop (spy m) k s = prepend (trace s) (main_loop (spy m) k (start (world s)))"
proof (intro conjI)
  show "tv_script (other_display_results g m) n w = tv_script m n w"
    unfolding other_display_results_def by (rule tv_script_other_results)
  show "calls (run_log (other_display_results g m) n w) = calls (run_log m n w)"
    unfolding other_display_results_def by (rule other_results_run(1))
qed (rule body_effects body_cases main_loop_Suc main_loop_prepend)+

text \<open>
  On the test double, with a display that returns the frame it was given instead of
  \<^verbatim>\<open>None\<close>: the outcomes in the log differ, the calls and the board do not.
\<close>

theorem loop_body_effects_witness:
  "run_log (other_display_results (\<lambda>img v. img) mock) 3 (power_on [1, 2, 3])
     \<noteq> run_log mock 3 (power_on [1, 2, 3])
   \<and> calls (run_log (other_display_results (\<lambda>img v. img) mock) 3 (power_on [1, 2, 3]))
       = calls (run_log mock 3 (power_on [1, 2, 3]))
   \<and> tv_script (other_display_results (\<lambda>img v. img) mock) 3 (power_on [1, 2, 3])
       = tv_script mock 3 (power_on [1, 2, 3])
   \<and> expr_stmt (display_snapshot mock) (power_on [1, 2, 3])
       = Completed \<lparr>format_reg = None, size_reg = None, channel_reg = None,
                    pending = [2, 3], screen = [Frame 1]\<rparr>"
proof -
  have a: "run_log (other_display_results (\<lambda>img v. img) mock) 3 (power_on [1, 2, 3])
          \<noteq> run_log mock 3 (power_on [1, 2, 3])"
    by code_simp
  have b: "expr_stmt (display_snapshot mock) (power_on [1, 2, 3])
       = Completed \<lparr>format_reg = None, size_reg = None, channel_reg = None,
                    pending = [2, 3], screen = [Frame 1]\<rparr>"
    by code_simp
  from loop_body_effects[of mock _ _ "\<lambda>img v. img" 3 "power_on [1, 2, 3]"] a b
  show ?thesis by blast
qed
end
